theory Spec2Isabelle
  imports Complex_Main "HOL-Library.Multiset" "HOL-Library.Sublist" "HOL-Library.Log_Nat"
begin

section \<open>Data model (src/types.ts)\<close>

text \<open>
  A JavaScript \<^verbatim>\<open>number\<close> is modelled as a \<^typ>\<open>real\<close>, the value of the binary64
  number; \<^verbatim>\<open>NaN\<close> and the infinities are not part of the model. The comparisons of
  the source are exact, and so is \<^verbatim>\<open>Math.floor\<close>. The arithmetic of line 77, whose
  floor decides the split, is rounded as binary64 arithmetic is; the arithmetic of the
  simulated score (line 172) is read over the reals. An optional field \<^verbatim>\<open>f?: T\<close> is a \<^typ>\<open>'a option\<close>, with
  \<^term>\<open>None\<close> for an absent field. The field \<^verbatim>\<open>id\<close> is named \<open>id_field\<close> here.
\<close>

datatype RiskCategory = High | Medium | Low

datatype Split = TRAIN | TEST

record PatientProfile =
  id_field :: string
  age :: real
  gender :: string
  diagnosisCode :: string
  currentTherapyLine :: real
  monthsOnCurrentTherapy :: real
  lastVisitDate :: string
  npiSpecialty :: string
  drugId :: string
  doctorName :: string
  npiId :: string
  riskScore :: "real option"
  riskCategory :: "RiskCategory option"
  split :: "Split option"
  actualOutcome :: "bool option"

record OntologyMapping =
  diseaseName :: string
  icdCodes :: "string list"
  cptCodes :: "string list"
  drugs :: "string list"
  targetLineTransition :: string

datatype ModelType = GENAI_REASONING | XGBOOST

datatype ImbalanceStrategy = NONE | CLASS_WEIGHTS | SMOTE

record CohortConfig =
  lookbackMonths :: real
  predictionWindowMonths :: real
  minClaimsCount :: real
  modelType :: ModelType
  imbalanceStrategy :: ImbalanceStrategy
  trainTestSplit :: real

record ColumnKeywords =
  kw_id :: "string list"
  kw_diagnosis :: "string list"
  kw_prescription :: "string list"
  kw_procedure :: "string list"
  kw_date :: "string list"

section \<open>The environment of classifyPatientRisk (src/services/geminiService.ts)\<close>

text \<open>
  \<^verbatim>\<open>Math.random()\<close> is an explicit source: the sequence of the values that successive
  calls return, read through a counter of the calls made so far.
\<close>

type_synonym random_source = "nat \<Rightarrow> real"

text \<open>
  A comparator handed to \<^verbatim>\<open>Array.prototype.sort\<close> may call \<^verbatim>\<open>Math.random()\<close>, so it
  takes the counter and returns it. The order that \<^verbatim>\<open>sort\<close> produces under a comparator
  that is not consistent is left to the JavaScript engine; the engine's sort is therefore
  a parameter of the model.
\<close>

type_synonym 'a comparator = "'a \<Rightarrow> 'a \<Rightarrow> nat \<Rightarrow> real \<times> nat"

type_synonym 'a array_sort = "'a comparator \<Rightarrow> 'a list \<Rightarrow> nat \<Rightarrow> 'a list \<times> nat"

text \<open>The one property of the engine's sort that is used: it rearranges, nothing else.\<close>

definition permuting :: "'a array_sort \<Rightarrow> bool" where
  "permuting srt = (\<forall>cmp xs n. mset (fst (srt cmp xs n)) = mset xs)"

text \<open>
  One sort that an engine can run, used to evaluate the model on concrete inputs:
  insertion sort, calling the comparator once for each comparison.
\<close>

fun insertBy :: "'a comparator \<Rightarrow> 'a \<Rightarrow> 'a list \<Rightarrow> nat \<Rightarrow> 'a list \<times> nat" where
  "insertBy cmp x [] n = ([x], n)"
| "insertBy cmp x (y # ys) n =
     (case cmp x y n of (c, n') \<Rightarrow>
        if c \<le> 0 then (x # y # ys, n')
        else (case insertBy cmp x ys n' of (r, n'') \<Rightarrow> (y # r, n'')))"

fun insertionSort :: "'a array_sort" where
  "insertionSort cmp [] n = ([], n)"
| "insertionSort cmp (x # xs) n =
     (case insertionSort cmp xs n of (s, n') \<Rightarrow> insertBy cmp x s n')"

text \<open>
  The rounding of binary64 arithmetic: the result of an operation is the rounding of its
  exact result. The rounding is a parameter of the model, as the sort is; the properties
  below hold for every rounding.
\<close>

type_synonym rounding = "real \<Rightarrow> real"

text \<open>
  The rounding of IEEE 754 double precision, to the nearest value with a significand of 53
  bits, ties to the even one, for a result in the normal range (the exponent is not
  bounded here, so that no result is subnormal or overflows). \<open>exponentOf a\<close> is the
  \<open>e\<close> with \<open>2 ^ e \<le> a < 2 ^ (e + 1)\<close>, for a positive \<open>a\<close>.
\<close>

definition roundHalfEven :: "real \<Rightarrow> int" where
  "roundHalfEven x =
     (let f = \<lfloor>x\<rfloor>; d = x - of_int f
      in if d < 1 / 2 then f else if d > 1 / 2 then f + 1 else if even f then f else f + 1)"

definition exponentOf :: "real \<Rightarrow> int" where
  "exponentOf a = (if a \<ge> 1 then bitlen \<lfloor>a\<rfloor> - 1 else - bitlen (\<lceil>1 / a\<rceil> - 1))"

definition binary64 :: rounding where
  "binary64 x =
     (if x = 0 then 0
      else (let ulp = 2 powi (exponentOf \<bar>x\<bar> - 52)
            in sgn x * of_int (roundHalfEven (\<bar>x\<bar> / ulp)) * ulp))"

text \<open>
  The request to the reasoning engine, as the data that the prompt is built from: the
  ontology, the configuration and the feature tuples of the batch.
\<close>

record Features =
  f_id :: string
  f_age :: real
  f_monthsOnTherapy :: real
  f_currentLine :: real
  f_specialty :: string
  f_doctor :: string

record Request =
  req_ontology :: OntologyMapping
  req_config :: CohortConfig
  req_batch :: "Features list"

text \<open>
  What the \<^verbatim>\<open>try\<close> block can throw: the call \<^verbatim>\<open>ai.models.generateContent\<close> rejects,
  or \<^verbatim>\<open>JSON.parse\<close> throws.
\<close>

datatype error = CallRejected | JsonSyntaxError

text \<open>
  The engine either rejects or answers with \<^verbatim>\<open>response.text\<close>, a string or
  \<^verbatim>\<open>undefined\<close>. \<^verbatim>\<open>JSON.parse\<close> either throws or gives an array of the objects that
  the \<^verbatim>\<open>responseSchema\<close> of the call asks for, each with an \<^verbatim>\<open>id\<close> and a
  \<^verbatim>\<open>riskScore\<close>.
\<close>

record Prediction =
  p_id :: string
  p_riskScore :: real

type_synonym engine = "Request \<Rightarrow> error + string option"

type_synonym json_parse = "string \<Rightarrow> error + Prediction list"

section \<open>classifyPatientRisk\<close>

text \<open>Line 73: the filter predicate.\<close>

definition eligible :: "PatientProfile \<Rightarrow> bool" where
  "eligible p = (monthsOnCurrentTherapy p \<ge> 1)"

text \<open>Line 76: the comparator \<^verbatim>\<open>() => 0.5 - Math.random()\<close>.\<close>

definition randomComparator :: "random_source \<Rightarrow> 'a comparator" where
  "randomComparator rnd a b n = (0.5 - rnd n, Suc n)"

text \<open>
  Line 77: \<^verbatim>\<open>Math.floor(shuffled.length * (1 - config.trainTestSplit))\<close>. The
  subtraction and the multiplication are rounded; the length is an integer and the floor
  is exact.
\<close>

definition splitIndexOf :: "rounding \<Rightarrow> CohortConfig \<Rightarrow> 'a list \<Rightarrow> int" where
  "splitIndexOf fl config shuffled =
     \<lfloor>fl (real (length shuffled) * fl (1 - trainTestSplit config))\<rfloor>"

text \<open>Lines 82 to 83 and 121 to 128: the batch and its feature tuples.\<close>

definition batchSize :: nat where
  "batchSize = 30"

definition featuresOf :: "PatientProfile \<Rightarrow> Features" where
  "featuresOf p =
     \<lparr>f_id = id_field p, f_age = age p, f_monthsOnTherapy = monthsOnCurrentTherapy p,
      f_currentLine = currentTherapyLine p, f_specialty = npiSpecialty p,
      f_doctor = doctorName p\<rparr>"

definition buildRequest :: "OntologyMapping \<Rightarrow> CohortConfig \<Rightarrow> PatientProfile list \<Rightarrow> Request" where
  "buildRequest ontology config shuffled =
     (let processedBatch = take batchSize shuffled
      in \<lparr>req_ontology = ontology, req_config = config,
          req_batch = map featuresOf processedBatch\<rparr>)"

text \<open>
  Lines 138 to 157: the call and \<^verbatim>\<open>response.text ? JSON.parse(response.text) : []\<close>.
  An absent text and the empty string are falsy.
\<close>

definition fetchPredictions :: "engine \<Rightarrow> json_parse \<Rightarrow> Request \<Rightarrow> error + Prediction list" where
  "fetchPredictions generateContent jsonParse request =
     (case generateContent request of
        Inl e \<Rightarrow> Inl e
      | Inr text \<Rightarrow>
          (case text of
             None \<Rightarrow> Inr []
           | Some t \<Rightarrow> if t = [] then Inr [] else jsonParse t))"

text \<open>Lines 171 to 172: the score of a patient that the predictions do not name.\<close>

definition simulatedScore :: "CohortConfig \<Rightarrow> PatientProfile \<Rightarrow> real \<Rightarrow> real" where
  "simulatedScore config p r =
     (let baseRisk = (if monthsOnCurrentTherapy p > lookbackMonths config then 0.4 else 0.05)
      in min 0.99 (max 0.01 (baseRisk + (r * 0.3 - 0.15))))"

text \<open>Lines 175 to 177.\<close>

definition categoryOf :: "real \<Rightarrow> RiskCategory" where
  "categoryOf score = (if score > 0.7 then High else if score > 0.4 then Medium else Low)"

text \<open>Line 183: \<^verbatim>\<open>Math.random() < score\<close>, for the value \<open>u\<close> that the call returns.\<close>

definition simulateOutcome :: "real \<Rightarrow> real \<Rightarrow> bool" where
  "simulateOutcome score u = (u < score)"

text \<open>
  Lines 160 to 191: the callback of \<^verbatim>\<open>shuffled.map\<close>, for the patient \<open>p\<close> at \<open>index\<close>,
  with \<open>n\<close> calls of \<^verbatim>\<open>Math.random()\<close> made before it.
\<close>

definition scorePatient ::
  "random_source \<Rightarrow> CohortConfig \<Rightarrow> Prediction list \<Rightarrow> int \<Rightarrow> PatientProfile \<Rightarrow> nat \<Rightarrow> nat
     \<Rightarrow> PatientProfile \<times> nat" where
  "scorePatient rnd config predictions splitIndex p index n =
     (let split' = (if int index < splitIndex then TRAIN else TEST);
          pred = find (\<lambda>item. p_id item = id_field p) predictions;
          (score, n1) =
            (case pred of
               Some item \<Rightarrow> (p_riskScore item, n)
             | None \<Rightarrow> (simulatedScore config p (rnd n), Suc n));
          cat = categoryOf score;
          actualOutcome' = simulateOutcome score (rnd n1)
      in (p\<lparr>riskScore := Some score, riskCategory := Some cat,
            split := Some split', actualOutcome := Some actualOutcome'\<rparr>, Suc n1))"

text \<open>
  \<^verbatim>\<open>Array.prototype.map\<close> with a callback that takes the element and its index and may
  call \<^verbatim>\<open>Math.random()\<close>: the callback runs on the elements in order.
\<close>

fun arrayMap :: "('a \<Rightarrow> nat \<Rightarrow> nat \<Rightarrow> 'b \<times> nat) \<Rightarrow> nat \<Rightarrow> nat \<Rightarrow> 'a list \<Rightarrow> 'b list \<times> nat" where
  "arrayMap f index n [] = ([], n)"
| "arrayMap f index n (x # xs) =
     (case f x index n of
        (y, n') \<Rightarrow>
          (case arrayMap f (Suc index) n' xs of
             (ys, n'') \<Rightarrow> (y # ys, n'')))"

text \<open>Line 196: the record that the \<^verbatim>\<open>catch\<close> block makes of a patient.\<close>

definition fallbackRecord :: "PatientProfile \<Rightarrow> PatientProfile" where
  "fallbackRecord p = p\<lparr>riskScore := Some 0.1, riskCategory := Some Low, split := Some TRAIN\<rparr>"

text \<open>
  Lines 73 to 77: what every run computes before the \<^verbatim>\<open>try\<close> block, the shuffled
  eligible patients and the counter of the random source after the sort.
\<close>

definition shuffledOf :: "PatientProfile array_sort \<Rightarrow> random_source \<Rightarrow> PatientProfile list
     \<Rightarrow> PatientProfile list \<times> nat" where
  "shuffledOf srt rnd patients =
     (let eligiblePatients = filter eligible patients
      in srt (randomComparator rnd) eligiblePatients 0)"

text \<open>Lines 137 to 192: the \<^verbatim>\<open>try\<close> block.\<close>

definition tryBlock ::
  "rounding \<Rightarrow> random_source \<Rightarrow> engine \<Rightarrow> json_parse \<Rightarrow> OntologyMapping \<Rightarrow> CohortConfig
     \<Rightarrow> PatientProfile list \<Rightarrow> nat \<Rightarrow> error + PatientProfile list" where
  "tryBlock fl rnd generateContent jsonParse ontology config shuffled n =
     (case fetchPredictions generateContent jsonParse (buildRequest ontology config shuffled) of
        Inl e \<Rightarrow> Inl e
      | Inr predictions \<Rightarrow>
          Inr (fst (arrayMap (scorePatient rnd config predictions (splitIndexOf fl config shuffled))
                 0 n shuffled)))"

definition classifyPatientRisk ::
  "PatientProfile array_sort \<Rightarrow> rounding \<Rightarrow> random_source \<Rightarrow> engine \<Rightarrow> json_parse
     \<Rightarrow> PatientProfile list \<Rightarrow> OntologyMapping \<Rightarrow> CohortConfig \<Rightarrow> PatientProfile list" where
  "classifyPatientRisk srt fl rnd generateContent jsonParse patients ontology config =
     (case shuffledOf srt rnd patients of
        (shuffled, n) \<Rightarrow>
          (case tryBlock fl rnd generateContent jsonParse ontology config shuffled n of
             Inr result \<Rightarrow> result
           | Inl e \<Rightarrow> map fallbackRecord patients))"


section \<open>classifyPatientRisk over a store of arrays and objects\<close>

text \<open>
  The arrays and the patient objects of the JavaScript heap, by reference, to say what
  a run writes. An array holds references to objects. A reference below \<open>nextRef\<close> is
  in use; a new array or object takes the reference \<open>nextRef\<close>.
\<close>

type_synonym ref = nat

record store =
  objects :: "ref \<Rightarrow> PatientProfile"
  arrays :: "ref \<Rightarrow> ref list"
  nextRef :: ref

definition allocArray :: "store \<Rightarrow> ref list \<Rightarrow> store \<times> ref" where
  "allocArray s xs =
     (s\<lparr>arrays := (arrays s)(nextRef s := xs), nextRef := Suc (nextRef s)\<rparr>, nextRef s)"

definition allocObject :: "store \<Rightarrow> PatientProfile \<Rightarrow> store \<times> ref" where
  "allocObject s p =
     (s\<lparr>objects := (objects s)(nextRef s := p), nextRef := Suc (nextRef s)\<rparr>, nextRef s)"

text \<open>\<^verbatim>\<open>a.filter(P)\<close>: a new array.\<close>

definition arrayFilter_store :: "(PatientProfile \<Rightarrow> bool) \<Rightarrow> store \<Rightarrow> ref \<Rightarrow> store \<times> ref" where
  "arrayFilter_store P s a = allocArray s (filter (\<lambda>r. P (objects s r)) (arrays s a))"

text \<open>\<^verbatim>\<open>[...a]\<close>: a new array with the elements of \<open>a\<close>.\<close>

definition arraySpread_store :: "store \<Rightarrow> ref \<Rightarrow> store \<times> ref" where
  "arraySpread_store s a = allocArray s (arrays s a)"

text \<open>\<^verbatim>\<open>a.sort(cmp)\<close>: sorts the array \<open>a\<close> in place and returns \<open>a\<close>.\<close>

definition arraySort_store ::
  "ref array_sort \<Rightarrow> ref comparator \<Rightarrow> store \<Rightarrow> ref \<Rightarrow> nat \<Rightarrow> store \<times> ref \<times> nat" where
  "arraySort_store srt cmp s a n =
     (case srt cmp (arrays s a) n of
        (xs, n') \<Rightarrow> (s\<lparr>arrays := (arrays s)(a := xs)\<rparr>, a, n'))"

text \<open>\<^verbatim>\<open>a.slice(0, k)\<close>: a new array.\<close>

definition arraySlice_store :: "store \<Rightarrow> ref \<Rightarrow> nat \<Rightarrow> store \<times> ref" where
  "arraySlice_store s a k = allocArray s (take k (arrays s a))"

text \<open>
  \<^verbatim>\<open>a.map(f)\<close> for a callback that returns a new object \<^verbatim>\<open>{ ...p, ... }\<close>: the
  callback reads the object of each element and a new object holds its result; a new
  array holds the references to the new objects.
\<close>

fun mapObjects_store ::
  "(PatientProfile \<Rightarrow> nat \<Rightarrow> nat \<Rightarrow> PatientProfile \<times> nat) \<Rightarrow> nat \<Rightarrow> nat \<Rightarrow> store \<Rightarrow> ref list
     \<Rightarrow> store \<times> ref list \<times> nat" where
  "mapObjects_store f index n s [] = (s, [], n)"
| "mapObjects_store f index n s (r # rs) =
     (case f (objects s r) index n of
        (p', n') \<Rightarrow>
          (case allocObject s p' of
             (s1, r') \<Rightarrow>
               (case mapObjects_store f (Suc index) n' s1 rs of
                  (s2, rs', n'') \<Rightarrow> (s2, r' # rs', n''))))"

definition arrayMap_store ::
  "(PatientProfile \<Rightarrow> nat \<Rightarrow> nat \<Rightarrow> PatientProfile \<times> nat) \<Rightarrow> store \<Rightarrow> ref \<Rightarrow> nat \<Rightarrow> store \<times> ref" where
  "arrayMap_store f s a n =
     (case mapObjects_store f 0 n s (arrays s a) of
        (s1, rs', n') \<Rightarrow> allocArray s1 rs')"

text \<open>
  Lines 65 to 198 over the store: \<open>patients\<close> is the reference to the caller's array;
  the result is the store after the run and the reference to the array returned.
\<close>

definition classifyPatientRisk_store ::
  "ref array_sort \<Rightarrow> rounding \<Rightarrow> random_source \<Rightarrow> engine \<Rightarrow> json_parse
     \<Rightarrow> store \<Rightarrow> ref \<Rightarrow> OntologyMapping \<Rightarrow> CohortConfig \<Rightarrow> store \<times> ref" where
  "classifyPatientRisk_store srt fl rnd generateContent jsonParse s patients ontology config =
     (case arrayFilter_store eligible s patients of
        (s1, eligiblePatients) \<Rightarrow>
     (case arraySpread_store s1 eligiblePatients of
        (s2, copy) \<Rightarrow>
     (case arraySort_store srt (randomComparator rnd) s2 copy 0 of
        (s3, shuffled, n) \<Rightarrow>
     (case arraySlice_store s3 shuffled batchSize of
        (s4, processedBatch) \<Rightarrow>
          (let shuffledObjects = map (objects s4) (arrays s4 shuffled);
               splitIndex = splitIndexOf fl config shuffledObjects
           in case fetchPredictions generateContent jsonParse
                     (buildRequest ontology config shuffledObjects) of
                Inr predictions \<Rightarrow>
                  arrayMap_store (scorePatient rnd config predictions splitIndex) s4 shuffled n
              | Inl e \<Rightarrow>
                  arrayMap_store (\<lambda>p index n. (fallbackRecord p, n)) s4 patients n)))))"

text \<open>
  Two records are of the same subject when they agree on every field but
  \<^verbatim>\<open>riskScore\<close>, \<^verbatim>\<open>riskCategory\<close>, \<^verbatim>\<open>split\<close> and \<^verbatim>\<open>actualOutcome\<close>.
\<close>

definition sameSubject :: "PatientProfile \<Rightarrow> PatientProfile \<Rightarrow> bool" where
  "sameSubject r p =
     (r\<lparr>riskScore := riskScore p, riskCategory := riskCategory p, split := split p,
        actualOutcome := actualOutcome p\<rparr> = p)"

section \<open>Validation metrics (src/components/AnalysisDashboard.tsx)\<close>

record Metrics =
  accuracy :: real
  precision :: real
  recall :: real
  tp :: nat
  fp :: nat
  tn :: nat
  fn :: nat

text \<open>Line 65.\<close>

definition threshold :: real where
  "threshold = 0.5"

text \<open>
  Lines 68 to 69: \<^verbatim>\<open>(p.riskScore || 0) > threshold\<close> and \<^verbatim>\<open>p.actualOutcome || false\<close>;
  an absent field is falsy.
\<close>

definition predictedOf :: "PatientProfile \<Rightarrow> bool" where
  "predictedOf p = ((case riskScore p of None \<Rightarrow> 0 | Some s \<Rightarrow> s) > threshold)"

definition actualOf :: "PatientProfile \<Rightarrow> bool" where
  "actualOf p = (case actualOutcome p of None \<Rightarrow> False | Some b \<Rightarrow> b)"

text \<open>Lines 67 to 75: one step of the \<^verbatim>\<open>forEach\<close> over the four counters.\<close>

fun countPatient :: "nat \<times> nat \<times> nat \<times> nat \<Rightarrow> PatientProfile \<Rightarrow> nat \<times> nat \<times> nat \<times> nat" where
  "countPatient (tp0, fp0, tn0, fn0) p =
     (let predicted = predictedOf p;
          actual = actualOf p;
          tp1 = (if predicted \<and> actual then tp0 + 1 else tp0);
          fp1 = (if predicted \<and> \<not> actual then fp0 + 1 else fp0);
          fn1 = (if \<not> predicted \<and> actual then fn0 + 1 else fn0);
          tn1 = (if \<not> predicted \<and> \<not> actual then tn0 + 1 else tn0)
      in (tp1, fp1, tn1, fn1))"

text \<open>Line 40.\<close>

definition testSetOf :: "PatientProfile list \<Rightarrow> PatientProfile list" where
  "testSetOf patients = filter (\<lambda>p. split p = Some TEST) patients"

text \<open>Line 41.\<close>

definition trainSetOf :: "PatientProfile list \<Rightarrow> PatientProfile list" where
  "trainSetOf patients = filter (\<lambda>p. split p = Some TRAIN) patients"

text \<open>Lines 61 to 82.\<close>

definition validationMetrics :: "PatientProfile list \<Rightarrow> Metrics" where
  "validationMetrics patients =
     (let testSet = testSetOf patients
      in if length testSet = 0
         then \<lparr>accuracy = 0, precision = 0, recall = 0, tp = 0, fp = 0, tn = 0, fn = 0\<rparr>
         else
           (case foldl countPatient (0, 0, 0, 0) testSet of
              (tp', fp', tn', fn') \<Rightarrow>
                (let accuracy' = real (tp' + tn') / real (length testSet);
                     precision' = (if tp' + fp' > 0 then real tp' / real (tp' + fp') else 0);
                     recall' = (if tp' + fn' > 0 then real tp' / real (tp' + fn') else 0)
                 in \<lparr>accuracy = accuracy', precision = precision', recall = recall',
                     tp = tp', fp = fp', tn = tn', fn = fn'\<rparr>)))"

section \<open>Column resolution (src/components/FileUpload.tsx)\<close>

text \<open>
  Headers are strings of ASCII characters. \<^verbatim>\<open>toLowerCase\<close> maps the letters A to Z to
  a to z; \<^verbatim>\<open>trim\<close> drops white space at both ends; the replacement of
  \<^verbatim>\<open>/[^a-z0-9]/g\<close> by the empty string keeps the characters a to z and 0 to 9.
\<close>

definition toLowerChar :: "char \<Rightarrow> char" where
  "toLowerChar c =
     (case map_of (zip ''ABCDEFGHIJKLMNOPQRSTUVWXYZ'' ''abcdefghijklmnopqrstuvwxyz'') c of
        Some l \<Rightarrow> l
      | None \<Rightarrow> c)"

definition toLowerCase :: "string \<Rightarrow> string" where
  "toLowerCase s = map toLowerChar s"

definition isWhiteSpace :: "char \<Rightarrow> bool" where
  "isWhiteSpace c = (c \<in> set [CHR '' '', CHR 0x09, CHR 0x0A, CHR 0x0B, CHR 0x0C, CHR 0x0D])"

definition trim :: "string \<Rightarrow> string" where
  "trim s = rev (dropWhile isWhiteSpace (rev (dropWhile isWhiteSpace s)))"

definition isLowerAlnum :: "char \<Rightarrow> bool" where
  "isLowerAlnum c = (c \<in> set ''abcdefghijklmnopqrstuvwxyz0123456789'')"

text \<open>Line 26: the callback of \<^verbatim>\<open>headers.map\<close>.\<close>

definition normalizeHeader :: "string \<Rightarrow> string" where
  "normalizeHeader h = filter isLowerAlnum (trim (toLowerCase h))"

text \<open>\<^verbatim>\<open>h.startsWith(keyword)\<close> and \<^verbatim>\<open>h.includes(keyword)\<close>.\<close>

definition startsWith :: "string \<Rightarrow> string \<Rightarrow> bool" where
  "startsWith h keyword = prefix keyword h"

definition includes_str :: "string \<Rightarrow> string \<Rightarrow> bool" where
  "includes_str h keyword = sublist keyword h"

text \<open>\<^verbatim>\<open>Array.prototype.findIndex\<close>: the first index whose element satisfies, or -1.\<close>

fun findIndex :: "('a \<Rightarrow> bool) \<Rightarrow> 'a list \<Rightarrow> int" where
  "findIndex P [] = - 1"
| "findIndex P (x # xs) =
     (if P x then 0 else (let i = findIndex P xs in if i = - 1 then - 1 else i + 1))"

text \<open>
  One of the three \<^verbatim>\<open>for (const keyword of keywords)\<close> loops of lines 29 to 44, for the
  test \<open>m\<close> of its \<^verbatim>\<open>findIndex\<close>: the index that the loop returns, or \<^term>\<open>None\<close> when
  the loop ends without returning.
\<close>

fun keywordLoop :: "(string \<Rightarrow> string \<Rightarrow> bool) \<Rightarrow> string list \<Rightarrow> string list \<Rightarrow> int option" where
  "keywordLoop m lowerHeaders [] = None"
| "keywordLoop m lowerHeaders (keyword # keywords) =
     (let idx = findIndex (\<lambda>h. m h keyword) lowerHeaders
      in if idx \<noteq> - 1 then Some idx else keywordLoop m lowerHeaders keywords)"

text \<open>Lines 25 to 47.\<close>

definition findColumnIndex :: "string list \<Rightarrow> string list \<Rightarrow> int" where
  "findColumnIndex headers keywords =
     (let lowerHeaders = map normalizeHeader headers
      in case keywordLoop (\<lambda>h keyword. h = keyword) lowerHeaders keywords of
           Some idx \<Rightarrow> idx
         | None \<Rightarrow>
             (case keywordLoop startsWith lowerHeaders keywords of
                Some idx \<Rightarrow> idx
              | None \<Rightarrow>
                  (case keywordLoop includes_str lowerHeaders keywords of
                     Some idx \<Rightarrow> idx
                   | None \<Rightarrow> - 1)))"

text \<open>Lines 81 to 84: the drug column.\<close>

definition drugColumnIndex :: "string list \<Rightarrow> ColumnKeywords \<Rightarrow> int" where
  "drugColumnIndex headers columnKeywords =
     (let rxIndex = findColumnIndex headers (kw_prescription columnKeywords)
      in if rxIndex = - 1 then findColumnIndex headers (kw_procedure columnKeywords)
         else rxIndex)"

record ColumnIndices =
  idIndex :: int
  dxIndex :: int
  rxIndex :: int
  dateIndex :: int

text \<open>\<^verbatim>\<open>keywords.slice(0, 3).join(', ')\<close>.\<close>

fun joinWith :: "string \<Rightarrow> string list \<Rightarrow> string" where
  "joinWith sep [] = []"
| "joinWith sep [x] = x"
| "joinWith sep (x # y # ys) = x @ sep @ joinWith sep (y # ys)"

definition missingMessage :: "string \<Rightarrow> string list \<Rightarrow> string" where
  "missingMessage label keywords =
     label @ '' (keywords: '' @ joinWith '', '' (take 3 keywords) @ ''...)''"

text \<open>
  Lines 71 to 97 of \<^verbatim>\<open>processFile\<close>: the four indices, or the list \<^verbatim>\<open>missing\<close> when it
  is not empty.
\<close>

definition resolveColumns :: "string list \<Rightarrow> ColumnKeywords \<Rightarrow> string list + ColumnIndices" where
  "resolveColumns headers columnKeywords =
     (let idIndex' = findColumnIndex headers (kw_id columnKeywords);
          dxIndex' = findColumnIndex headers (kw_diagnosis columnKeywords);
          rxIndex' = drugColumnIndex headers columnKeywords;
          dateIndex' = findColumnIndex headers (kw_date columnKeywords);
          missing =
            (if idIndex' = - 1 then [missingMessage ''Patient ID'' (kw_id columnKeywords)] else []) @
            (if dxIndex' = - 1 then [missingMessage ''Diagnosis'' (kw_diagnosis columnKeywords)] else []) @
            (if rxIndex' = - 1 then [missingMessage ''Drug/Procedure'' (kw_prescription columnKeywords)] else []) @
            (if dateIndex' = - 1 then [missingMessage ''Date'' (kw_date columnKeywords)] else [])
      in if length missing > 0 then Inl missing
         else Inr \<lparr>idIndex = idIndex', dxIndex = dxIndex', rxIndex = rxIndex',
                   dateIndex = dateIndex'\<rparr>)"

text \<open>The default keyword tables (src/types.ts, lines 147 to 153).\<close>

definition defaultColumnKeywords :: ColumnKeywords where
  "defaultColumnKeywords =
     \<lparr>kw_id = [''patient'', ''member'', ''subject'', ''bene'', ''subscriber'', ''mrn'', ''id'',
               ''pid'', ''pat''],
      kw_diagnosis = [''diagnosis'', ''dx'', ''icd'', ''diag'', ''condition'', ''problem''],
      kw_prescription = [''drug'', ''rx'', ''ndc'', ''medication'', ''product'', ''pharmacy''],
      kw_procedure = [''cpt'', ''hcpcs'', ''procedure'', ''proc'', ''px'', ''service'', ''code''],
      kw_date = [''date'', ''dos'', ''time'', ''day'', ''dt'', ''service'', ''admit'']\<rparr>"

text \<open>
  The three tiers in the words of the specification: in a tier, the first keyword that
  matches some header wins, and resolves to the first header that it matches.
\<close>

definition tierMatch :: "(string \<Rightarrow> string \<Rightarrow> bool) \<Rightarrow> string list \<Rightarrow> string list \<Rightarrow> nat option" where
  "tierMatch m hs keywords =
     (case find (\<lambda>keyword. \<exists>h \<in> set hs. m h keyword) keywords of
        None \<Rightarrow> None
      | Some keyword \<Rightarrow> Some (length (takeWhile (\<lambda>h. \<not> m h keyword) hs)))"

definition resolveSpec :: "string list \<Rightarrow> string list \<Rightarrow> nat option" where
  "resolveSpec hs keywords =
     (case tierMatch (\<lambda>h keyword. h = keyword) hs keywords of
        Some i \<Rightarrow> Some i
      | None \<Rightarrow>
          (case tierMatch (\<lambda>h keyword. prefix keyword h) hs keywords of
             Some i \<Rightarrow> Some i
           | None \<Rightarrow> tierMatch (\<lambda>h keyword. sublist keyword h) hs keywords))"

section \<open>Names used in the statements\<close>

text \<open>
  The shuffled eligible patients of a run, and the request that the run sends to the
  reasoning engine.
\<close>

definition shuffledPatients :: "PatientProfile array_sort \<Rightarrow> random_source \<Rightarrow> PatientProfile list \<Rightarrow> PatientProfile list" where
  "shuffledPatients srt rnd patients = fst (shuffledOf srt rnd patients)"

definition requestOf :: "PatientProfile array_sort \<Rightarrow> random_source \<Rightarrow> PatientProfile list
     \<Rightarrow> OntologyMapping \<Rightarrow> CohortConfig \<Rightarrow> Request" where
  "requestOf srt rnd patients ontology config =
     buildRequest ontology config (shuffledPatients srt rnd patients)"

text \<open>
  Over the store: the references of the shuffled array (line 76); a caller's array that
  is in use together with the objects that it refers to; the store when the \<^verbatim>\<open>try\<close>
  block is entered, with the three arrays that lines 73 to 83 make.
\<close>

definition shuffledRefs :: "ref array_sort \<Rightarrow> random_source \<Rightarrow> store \<Rightarrow> ref \<Rightarrow> ref list" where
  "shuffledRefs srt rnd s patients =
     fst (srt (randomComparator rnd) (filter (\<lambda>r. eligible (objects s r)) (arrays s patients)) 0)"

definition wellFormed :: "store \<Rightarrow> ref \<Rightarrow> bool" where
  "wellFormed s patients =
     (patients < nextRef s \<and> (\<forall>r \<in> set (arrays s patients). r < nextRef s))"

definition beforeTry :: "ref array_sort \<Rightarrow> random_source \<Rightarrow> store \<Rightarrow> ref \<Rightarrow> store" where
  "beforeTry srt rnd s patients =
     s\<lparr>arrays := (arrays s)
          (nextRef s := filter (\<lambda>r. eligible (objects s r)) (arrays s patients),
           Suc (nextRef s) := shuffledRefs srt rnd s patients,
           Suc (Suc (nextRef s)) := take batchSize (shuffledRefs srt rnd s patients)),
        nextRef := Suc (Suc (Suc (nextRef s)))\<rparr>"

text \<open>
  A sort of references and a sort of patient records that make the same moves under the
  comparator of line 76: the engine's sort decides by the answers of the comparator, not
  by what the elements are.
\<close>

definition sortsAlike ::
  "ref array_sort \<Rightarrow> PatientProfile array_sort \<Rightarrow> random_source \<Rightarrow> (ref \<Rightarrow> PatientProfile) \<Rightarrow> bool" where
  "sortsAlike srtR srtP rnd f =
     (\<forall>xs n. map f (fst (srtR (randomComparator rnd) xs n))
                = fst (srtP (randomComparator rnd) (map f xs) n) \<and>
             snd (srtR (randomComparator rnd) xs n)
                = snd (srtP (randomComparator rnd) (map f xs) n))"

text \<open>
  The calls of \<^verbatim>\<open>Math.random()\<close> in the callback of \<^verbatim>\<open>shuffled.map\<close> (lines 160
  to 191): the callback makes one call for a patient that a prediction names (the
  outcome, line 183) and two for any other (the noise, line 172, then the outcome).
  \<open>counterAt predictions n shuffled i\<close> is the number of calls made before the callback runs
  at index \<open>i\<close>, when \<open>n\<close> calls were made before the map.
\<close>

definition drawsOf :: "Prediction list \<Rightarrow> PatientProfile \<Rightarrow> nat" where
  "drawsOf predictions p =
     (case find (\<lambda>item. p_id item = id_field p) predictions of Some item \<Rightarrow> 1 | None \<Rightarrow> 2)"

definition counterAt :: "Prediction list \<Rightarrow> nat \<Rightarrow> PatientProfile list \<Rightarrow> nat \<Rightarrow> nat" where
  "counterAt predictions n shuffled i = n + sum_list (map (drawsOf predictions) (take i shuffled))"

section \<open>Example inputs\<close>

text \<open>
  A patient as ingestion makes it, with no field of the inference set; a cohort with one
  patient that is not eligible; an engine that rejects, one that answers with the empty
  text, one that answers with a text; a parser that throws and one that gives one
  prediction.
\<close>

definition examplePatient :: "string \<Rightarrow> real \<Rightarrow> PatientProfile" where
  "examplePatient i m =
     \<lparr>id_field = i, age = 50, gender = ''F'', diagnosisCode = ''C50'', currentTherapyLine = 1,
      monthsOnCurrentTherapy = m, lastVisitDate = ''2024-01-01'', npiSpecialty = ''Oncology'',
      drugId = ''NDC1'', doctorName = ''External Provider'', npiId = ''9999999999'',
      riskScore = None, riskCategory = None, split = None, actualOutcome = None\<rparr>"

definition examplePatients :: "PatientProfile list" where
  "examplePatients = [examplePatient ''P1'' 5, examplePatient ''P2'' 0, examplePatient ''P3'' 14]"

definition twoPatients :: "PatientProfile list" where
  "twoPatients = [examplePatient ''P1'' 5, examplePatient ''P2'' 0]"

definition exampleOntology :: OntologyMapping where
  "exampleOntology =
     \<lparr>diseaseName = ''Breast Cancer'', icdCodes = [''C50%''], cptCodes = [], drugs = [''Tamoxifen''],
      targetLineTransition = ''1L to 2L''\<rparr>"

definition exampleConfig :: CohortConfig where
  "exampleConfig =
     \<lparr>lookbackMonths = 12, predictionWindowMonths = 6, minClaimsCount = 2,
      modelType = GENAI_REASONING, imbalanceStrategy = NONE, trainTestSplit = binary64 0.2\<rparr>"

definition halfRandom :: random_source where
  "halfRandom n = 0.5"

definition rejectingEngine :: engine where
  "rejectingEngine request = Inl CallRejected"

definition emptyTextEngine :: engine where
  "emptyTextEngine request = Inr (Some '''')"

definition textEngine :: engine where
  "textEngine request = Inr (Some ''text'')"

definition failingParse :: json_parse where
  "failingParse t = Inl JsonSyntaxError"

definition exampleParse :: json_parse where
  "exampleParse t = Inr [\<lparr>p_id = ''P1'', p_riskScore = 0.8\<rparr>]"

definition rejectedRun :: "PatientProfile list" where
  "rejectedRun =
     classifyPatientRisk insertionSort binary64 halfRandom rejectingEngine failingParse
       twoPatients exampleOntology exampleConfig"

definition garbledRun :: "PatientProfile list" where
  "garbledRun =
     classifyPatientRisk insertionSort binary64 halfRandom textEngine failingParse
       examplePatients exampleOntology exampleConfig"

definition emptyTextRun :: "PatientProfile list" where
  "emptyTextRun =
     classifyPatientRisk insertionSort binary64 halfRandom emptyTextEngine failingParse
       twoPatients exampleOntology exampleConfig"

definition successRun :: "PatientProfile list" where
  "successRun =
     classifyPatientRisk insertionSort binary64 halfRandom textEngine exampleParse
       examplePatients exampleOntology exampleConfig"

text \<open>
  Scored patients: the test set (0.8, true), (0.3, false), (0.9, false), (0.2, true), and
  the same with one patient of the training set before it.
\<close>

definition scoredPatient :: "string \<Rightarrow> Split \<Rightarrow> real \<Rightarrow> bool \<Rightarrow> PatientProfile" where
  "scoredPatient i sp s a =
     (examplePatient i 5)\<lparr>riskScore := Some s, riskCategory := Some (categoryOf s),
        split := Some sp, actualOutcome := Some a\<rparr>"

definition exampleTestSet :: "PatientProfile list" where
  "exampleTestSet =
     [scoredPatient ''T1'' TEST 0.8 True, scoredPatient ''T2'' TEST 0.3 False,
      scoredPatient ''T3'' TEST 0.9 False, scoredPatient ''T4'' TEST 0.2 True]"

definition exampleScored :: "PatientProfile list" where
  "exampleScored = scoredPatient ''R1'' TRAIN 0.9 True # exampleTestSet"

text \<open>
  A store with the three example patients at the references 0 to 2 and the caller's array
  at the reference 3, and the successful run over it.
\<close>

definition exampleStore :: store where
  "exampleStore =
     \<lparr>objects = (\<lambda>r. if r = 0 then examplePatient ''P1'' 5
                     else if r = 1 then examplePatient ''P2'' 0
                     else examplePatient ''P3'' 14),
      arrays = (\<lambda>a. if a = 3 then [0, 1, 2] else []),
      nextRef = 4\<rparr>"

definition storeRun :: "store \<times> ref" where
  "storeRun =
     classifyPatientRisk_store insertionSort binary64 halfRandom textEngine exampleParse
       exampleStore 3 exampleOntology exampleConfig"

text \<open>
  A random source whose first four values differ, and the successful run under it.
\<close>

definition variedRandom :: random_source where
  "variedRandom k = [0, 0.1, 0.2, 0.9] ! (k mod 4)"

definition variedRun :: "PatientProfile list" where
  "variedRun =
     classifyPatientRisk insertionSort binary64 variedRandom textEngine exampleParse
       examplePatients exampleOntology exampleConfig"

text \<open>
  Ninety eligible patients with the identifiers N00 to N89, the configuration with the
  value 0.3 of the split slider (as the binary64 number that the literal denotes), and
  the run over them in which the engine answers with the empty text.
\<close>

definition numberedPatient :: "nat \<Rightarrow> PatientProfile" where
  "numberedPatient k =
     examplePatient (''N'' @ [char_of (48 + k div 10), char_of (48 + k mod 10)]) 5"

definition ninetyPatients :: "PatientProfile list" where
  "ninetyPatients = map numberedPatient [0..<90]"

definition sliderConfig :: CohortConfig where
  "sliderConfig = exampleConfig\<lparr>trainTestSplit := binary64 0.3\<rparr>"

definition ninetyRun :: "PatientProfile list" where
  "ninetyRun =
     classifyPatientRisk insertionSort binary64 halfRandom emptyTextEngine failingParse
       ninetyPatients exampleOntology sliderConfig"

section \<open>Lemmas on binary64\<close>

text \<open>
  \<open>binary64\<close> rounds to a nearest number with a significand of 53 bits, and to the even
  one of two nearest.
\<close>

lemma exponentOf_bounds:
  assumes "0 < a"
  shows "2 powi exponentOf a \<le> a \<and> a < 2 powi (exponentOf a + 1)"
proof (cases "a \<ge> 1")
  case True
  define m where "m = \<lfloor>a\<rfloor>"
  have m: "0 < m" using True by (simp add: m_def)
  from bitlen_bounds [OF m] have b: "2 ^ nat (bitlen m - 1) \<le> m" "m < 2 ^ nat (bitlen m)"
    by simp_all
  have pos: "1 \<le> bitlen m" using m by (simp add: bitlen_alt_def)
  have e: "exponentOf a = bitlen m - 1" using True by (simp add: exponentOf_def m_def)
  have "real_of_int (2 ^ nat (bitlen m - 1)) \<le> real_of_int m" using b(1) by linarith
  also have "\<dots> \<le> a" by (simp add: m_def)
  finally have lo: "2 powi exponentOf a \<le> a"
    using pos by (simp add: e power_int_def)
  have "m + 1 \<le> 2 ^ nat (bitlen m)" using b(2) by simp
  then have "real_of_int (m + 1) \<le> real_of_int (2 ^ nat (bitlen m))" by linarith
  moreover have "a < real_of_int (m + 1)" by (simp add: m_def)
  ultimately have "a < real_of_int (2 ^ nat (bitlen m))" by linarith
  then have hi: "a < 2 powi (exponentOf a + 1)"
    using pos by (simp add: e power_int_def)
  show ?thesis using lo hi ..
next
  case False
  define c where "c = \<lceil>1 / a\<rceil>"
  define k where "k = bitlen (c - 1)"
  have y: "1 < 1 / a" using assms False by simp
  then have c: "2 \<le> c" by (simp add: c_def le_ceiling_iff)
  then have c1: "0 < c - 1" by simp
  from bitlen_bounds [OF c1] have b: "2 ^ nat (k - 1) \<le> c - 1" "c - 1 < 2 ^ nat k"
    by (simp_all add: k_def)
  have pos: "1 \<le> k" using c1 by (simp add: k_def bitlen_alt_def)
  have e: "exponentOf a = - k" using False by (simp add: exponentOf_def c_def k_def)
  have "c \<le> 2 ^ nat k" using b(2) by simp
  then have "1 / a \<le> real_of_int (2 ^ nat k)"
    unfolding c_def by (simp add: ceiling_le_iff)
  then have "1 / a \<le> 2 ^ nat k" by simp
  then have "1 \<le> a * 2 ^ nat k"
    using assms by (simp add: divide_le_eq mult.commute)
  then have "1 / 2 ^ nat k \<le> a"
    by (simp add: divide_le_eq)
  then have lo: "2 powi exponentOf a \<le> a"
    using pos by (simp add: e power_int_def inverse_eq_divide power_one_over)
  have "2 ^ nat (k - 1) < c" using b(1) by simp
  then have "real_of_int (2 ^ nat (k - 1)) < 1 / a"
    unfolding c_def by (simp add: less_ceiling_iff)
  then have "2 ^ nat (k - 1) < 1 / a" by simp
  then have "a * 2 ^ nat (k - 1) < 1"
    using assms by (simp add: less_divide_eq mult.commute)
  then have "a < 1 / 2 ^ nat (k - 1)"
    by (simp add: less_divide_eq)
  moreover have "(2::real) powi (exponentOf a + 1) = 1 / 2 ^ nat (k - 1)"
  proof (cases "k = 1")
    case True
    then show ?thesis by (simp add: e)
  next
    case False
    then have "- k + 1 < 0" using pos by simp
    moreover have "nat (- (- k + 1)) = nat (k - 1)" by simp
    ultimately show ?thesis
      by (simp add: e power_int_def inverse_eq_divide power_one_over)
  qed
  ultimately have hi: "a < 2 powi (exponentOf a + 1)" by simp
  show ?thesis using lo hi ..
qed

lemma roundHalfEven_near: "\<bar>real_of_int (roundHalfEven y) - y\<bar> \<le> 1 / 2"
proof -
  have "real_of_int \<lfloor>y\<rfloor> \<le> y" "y < real_of_int \<lfloor>y\<rfloor> + 1" by linarith+
  then show ?thesis
    by (auto simp add: roundHalfEven_def Let_def)
qed

lemma roundHalfEven_tie:
  "y - real_of_int \<lfloor>y\<rfloor> = 1 / 2 \<Longrightarrow> even (roundHalfEven y)"
  by (simp add: roundHalfEven_def Let_def)

lemma roundHalfEven_range: "\<lfloor>y\<rfloor> \<le> roundHalfEven y \<and> roundHalfEven y \<le> \<lfloor>y\<rfloor> + 1"
  by (simp add: roundHalfEven_def Let_def)

lemma binary64_abs:
  assumes "x \<noteq> 0"
  shows "binary64 x =
           sgn x * real_of_int (roundHalfEven (\<bar>x\<bar> / 2 powi (exponentOf \<bar>x\<bar> - 52)))
             * 2 powi (exponentOf \<bar>x\<bar> - 52)"
  using assms by (simp add: binary64_def Let_def)

lemma binary64_near:
  assumes "x \<noteq> 0"
  shows "\<bar>binary64 x - x\<bar> \<le> 2 powi (exponentOf \<bar>x\<bar> - 53)"
proof -
  define u :: real where "u = 2 powi (exponentOf \<bar>x\<bar> - 52)"
  define k where "k = roundHalfEven (\<bar>x\<bar> / u)"
  have u: "0 < u" by (simp add: u_def)
  have b: "binary64 x = sgn x * real_of_int k * u"
    using binary64_abs [OF assms] by (simp add: u_def k_def)
  have x: "x = sgn x * (\<bar>x\<bar> / u) * u" using u by (simp add: sgn_mult_abs)
  have "binary64 x - x = sgn x * (real_of_int k - \<bar>x\<bar> / u) * u"
    by (subst x, subst b) (simp add: algebra_simps)
  then have "\<bar>binary64 x - x\<bar> = \<bar>real_of_int k - \<bar>x\<bar> / u\<bar> * u"
    using assms u by (simp add: abs_mult abs_sgn_eq)
  also have "\<dots> \<le> (1 / 2) * u"
    using roundHalfEven_near [of "\<bar>x\<bar> / u"] u by (intro mult_right_mono) (simp_all add: k_def)
  also have "\<dots> = 2 powi (exponentOf \<bar>x\<bar> - 53)"
    by (simp add: u_def power_int_diff)
  finally show ?thesis .
qed

lemma binary64_significand:
  assumes "x \<noteq> 0"
  shows "\<exists>k. binary64 x = sgn x * real_of_int k * 2 powi (exponentOf \<bar>x\<bar> - 52) \<and>
             2 ^ 52 \<le> k \<and> k \<le> 2 ^ 53"
proof -
  define e where "e = exponentOf \<bar>x\<bar>"
  define y where "y = \<bar>x\<bar> / 2 powi (e - 52)"
  have pos: "0 < \<bar>x\<bar>" using assms by simp
  from exponentOf_bounds [OF pos] have b: "2 powi e \<le> \<bar>x\<bar>" "\<bar>x\<bar> < 2 powi (e + 1)"
    by (simp_all add: e_def)
  have "2 powi e / 2 powi (e - 52) \<le> y"
    using b(1) by (simp add: y_def divide_right_mono)
  then have lo: "2 ^ 52 \<le> y" by (simp add: power_int_diff)
  have "y < 2 powi (e + 1) / 2 powi (e - 52)"
    using b(2) by (simp add: y_def divide_strict_right_mono)
  then have hi: "y < 2 ^ 53" by (simp add: power_int_diff power_int_add)
  have "(2::int) ^ 52 \<le> \<lfloor>y\<rfloor>" using lo by (simp add: le_floor_iff)
  moreover have "\<lfloor>y\<rfloor> < (2::int) ^ 53" using hi by (simp add: floor_less_iff)
  ultimately have "2 ^ 52 \<le> roundHalfEven y \<and> roundHalfEven y \<le> 2 ^ 53"
    using roundHalfEven_range [of y] by linarith
  then show ?thesis
    using binary64_abs [OF assms] unfolding e_def [symmetric] y_def [symmetric] by blast
qed

section \<open>Lemmas on classifyPatientRisk\<close>

lemma length_arrayMap: "length (fst (arrayMap f i n xs)) = length xs"
  by (induction xs arbitrary: i n) (simp_all add: case_prod_beta)

lemma nth_arrayMap:
  "k < length xs \<Longrightarrow> \<exists>m. fst (arrayMap f i n xs) ! k = fst (f (xs ! k) (i + k) m)"
proof (induction xs arbitrary: i n k)
  case Nil
  then show ?case by simp
next
  case (Cons x xs)
  obtain y n' where fx: "f x i n = (y, n')" by (cases "f x i n")
  obtain ys n'' where rest: "arrayMap f (Suc i) n' xs = (ys, n'')"
    by (cases "arrayMap f (Suc i) n' xs")
  show ?case
  proof (cases k)
    case 0
    have "fst (arrayMap f i n (x # xs)) ! 0 = fst (f x i n)"
      using fx rest by simp
    then show ?thesis using 0 by auto
  next
    case (Suc j)
    then have "j < length xs" using Cons.prems by simp
    from Cons.IH [OF this, of "Suc i" n']
    obtain m where "fst (arrayMap f (Suc i) n' xs) ! j = fst (f (xs ! j) (Suc i + j) m)"
      by blast
    then have "fst (arrayMap f i n (x # xs)) ! k = fst (f ((x # xs) ! k) (i + k) m)"
      using fx rest Suc by simp
    then show ?thesis by blast
  qed
qed

lemma scorePatient_sameSubject:
  "sameSubject (fst (scorePatient rnd config predictions k p i m)) p"
  by (simp add: scorePatient_def sameSubject_def Let_def split: option.splits prod.splits)

lemma scorePatient_split:
  "split (fst (scorePatient rnd config predictions k p i m)) = Some (if int i < k then TRAIN else TEST)"
  by (simp add: scorePatient_def Let_def split: option.splits prod.splits)

lemma scorePatient_months:
  "monthsOnCurrentTherapy (fst (scorePatient rnd config predictions k p i m)) = monthsOnCurrentTherapy p"
  by (simp add: scorePatient_def Let_def split: option.splits prod.splits)

lemma scorePatient_score:
  "riskScore (fst (scorePatient rnd config predictions k p i m)) =
     Some (case find (\<lambda>item. p_id item = id_field p) predictions of
             Some item \<Rightarrow> p_riskScore item
           | None \<Rightarrow> simulatedScore config p (rnd m))"
  by (simp add: scorePatient_def Let_def split: option.splits prod.splits)

lemma scorePatient_category:
  "\<exists>s. riskScore (fst (scorePatient rnd config predictions k p i m)) = Some s \<and>
       riskCategory (fst (scorePatient rnd config predictions k p i m)) = Some (categoryOf s)"
  by (simp add: scorePatient_def Let_def split: option.splits prod.splits)

lemma scorePatient_outcome:
  "\<exists>s u. riskScore (fst (scorePatient rnd config predictions k p i m)) = Some s \<and>
       u \<in> range rnd \<and>
       actualOutcome (fst (scorePatient rnd config predictions k p i m)) = Some (u < s)"
  by (auto simp add: scorePatient_def simulateOutcome_def Let_def split: option.splits prod.splits)

lemma mset_insertBy: "mset (fst (insertBy cmp x xs n)) = add_mset x (mset xs)"
  by (induction xs arbitrary: n) (simp_all add: case_prod_beta)

lemma mset_insertionSort: "mset (fst (insertionSort cmp xs n)) = mset xs"
proof (induction xs arbitrary: n)
  case Nil
  then show ?case by simp
next
  case (Cons x xs)
  obtain s n' where r: "insertionSort cmp xs n = (s, n')" by (cases "insertionSort cmp xs n")
  with Cons.IH [of n] have "mset s = mset xs" by simp
  then show ?case using r by (simp add: mset_insertBy)
qed

lemma permuting_insertionSort: "permuting insertionSort"
  by (simp add: permuting_def mset_insertionSort)

lemma classify_success:
  assumes "fetchPredictions generateContent jsonParse (requestOf srt rnd patients ontology config)
             = Inr predictions"
  shows "classifyPatientRisk srt fl rnd generateContent jsonParse patients ontology config =
           fst (arrayMap
                 (scorePatient rnd config predictions
                    (splitIndexOf fl config (shuffledPatients srt rnd patients)))
                 0 (snd (shuffledOf srt rnd patients)) (shuffledPatients srt rnd patients))"
  using assms
  by (simp add: classifyPatientRisk_def tryBlock_def requestOf_def shuffledPatients_def
      case_prod_beta)

lemma classify_failure:
  assumes "fetchPredictions generateContent jsonParse (requestOf srt rnd patients ontology config)
             = Inl e"
  shows "classifyPatientRisk srt fl rnd generateContent jsonParse patients ontology config =
           map fallbackRecord patients"
  using assms
  by (simp add: classifyPatientRisk_def tryBlock_def requestOf_def shuffledPatients_def
      case_prod_beta)

lemma mset_shuffledPatients:
  "permuting srt \<Longrightarrow> mset (shuffledPatients srt rnd patients) = mset (filter eligible patients)"
  by (simp add: shuffledPatients_def shuffledOf_def permuting_def)

lemma classify_success_length:
  assumes "fetchPredictions generateContent jsonParse (requestOf srt rnd patients ontology config)
             = Inr predictions"
  shows "length (classifyPatientRisk srt fl rnd generateContent jsonParse patients ontology config)
           = length (shuffledPatients srt rnd patients)"
  by (simp add: classify_success [where fl = fl, OF assms] length_arrayMap)

lemma classify_success_nth:
  assumes "fetchPredictions generateContent jsonParse (requestOf srt rnd patients ontology config)
             = Inr predictions"
    and "i < length (shuffledPatients srt rnd patients)"
  shows "\<exists>m. classifyPatientRisk srt fl rnd generateContent jsonParse patients ontology config ! i
           = fst (scorePatient rnd config predictions
                    (splitIndexOf fl config (shuffledPatients srt rnd patients))
                    (shuffledPatients srt rnd patients ! i) i m)"
  using nth_arrayMap [OF assms(2), of _ 0] by (simp add: classify_success [where fl = fl, OF assms(1)])

lemma classify_success_sameSubject:
  assumes "fetchPredictions generateContent jsonParse (requestOf srt rnd patients ontology config)
             = Inr predictions"
  shows "list_all2 sameSubject
           (classifyPatientRisk srt fl rnd generateContent jsonParse patients ontology config)
           (shuffledPatients srt rnd patients)"
proof (rule list_all2_all_nthI)
  show "length (classifyPatientRisk srt fl rnd generateContent jsonParse patients ontology config)
          = length (shuffledPatients srt rnd patients)"
    by (rule classify_success_length [where fl = fl, OF assms])
next
  fix i
  assume "i < length (classifyPatientRisk srt fl rnd generateContent jsonParse patients ontology config)"
  then have i: "i < length (shuffledPatients srt rnd patients)"
    by (simp add: classify_success_length [where fl = fl, OF assms])
  from classify_success_nth [where fl = fl, OF assms i] scorePatient_sameSubject
  show "sameSubject
          (classifyPatientRisk srt fl rnd generateContent jsonParse patients ontology config ! i)
          (shuffledPatients srt rnd patients ! i)"
    by auto
qed

lemma fallbackRecord_sameSubject: "sameSubject (fallbackRecord p) p"
  by (simp add: fallbackRecord_def sameSubject_def)

lemma filter_split_partition:
  "\<forall>r \<in> set rs. split r = Some TRAIN \<or> split r = Some TEST \<Longrightarrow>
   length (filter (\<lambda>r. split r = Some TRAIN) rs) + length (filter (\<lambda>r. split r = Some TEST) rs)
     = length rs"
  by (induction rs) auto

lemma fetchPredictions_Inl_iff:
  "(\<exists>e. fetchPredictions generateContent jsonParse request = Inl e) \<longleftrightarrow>
     ((\<exists>e. generateContent request = Inl e) \<or>
      (\<exists>t e. generateContent request = Inr (Some t) \<and> t \<noteq> [] \<and> jsonParse t = Inl e))"
  by (auto simp add: fetchPredictions_def split: sum.splits option.splits)

lemmas example_defs =
  examplePatients_def twoPatients_def examplePatient_def exampleOntology_def exampleConfig_def halfRandom_def
  rejectingEngine_def emptyTextEngine_def textEngine_def failingParse_def exampleParse_def

lemmas binary64_defs = binary64_def exponentOf_def roundHalfEven_def compute_bitlen

lemmas classify_defs =
  classifyPatientRisk_def tryBlock_def shuffledOf_def fetchPredictions_def buildRequest_def
  scorePatient_def simulatedScore_def categoryOf_def splitIndexOf_def randomComparator_def
  eligible_def fallbackRecord_def batchSize_def featuresOf_def simulateOutcome_def binary64_defs

lemma rejectedRun_eq:
  "rejectedRun = map fallbackRecord twoPatients"
  by (simp add: rejectedRun_def classifyPatientRisk_def tryBlock_def fetchPredictions_def
      rejectingEngine_def case_prod_beta)

lemma successRun_eq:
  "successRun =
     [(examplePatient ''P1'' 5)\<lparr>riskScore := Some 0.8, riskCategory := Some High,
         split := Some TRAIN, actualOutcome := Some True\<rparr>,
      (examplePatient ''P3'' 14)\<lparr>riskScore := Some 0.4, riskCategory := Some Low,
         split := Some TEST, actualOutcome := Some False\<rparr>]"
  by (simp add: successRun_def classify_defs example_defs Let_def)

lemma emptyTextRun_eq:
  "emptyTextRun =
     [(examplePatient ''P1'' 5)\<lparr>riskScore := Some 0.05, riskCategory := Some Low,
         split := Some TEST, actualOutcome := Some False\<rparr>]"
  by (simp add: emptyTextRun_def classify_defs example_defs Let_def)

lemma scorePatient_found:
  "find (\<lambda>item. p_id item = id_field p) predictions = Some item \<Longrightarrow>
   fst (scorePatient rnd config predictions k p i m) =
     p\<lparr>riskScore := Some (p_riskScore item), riskCategory := Some (categoryOf (p_riskScore item)),
       split := Some (if int i < k then TRAIN else TEST),
       actualOutcome := Some (rnd m < p_riskScore item)\<rparr>"
  by (simp add: scorePatient_def simulateOutcome_def)

lemma scorePatient_absent:
  "find (\<lambda>item. p_id item = id_field p) predictions = None \<Longrightarrow>
   fst (scorePatient rnd config predictions k p i m) =
     p\<lparr>riskScore := Some (simulatedScore config p (rnd m)),
       riskCategory := Some (categoryOf (simulatedScore config p (rnd m))),
       split := Some (if int i < k then TRAIN else TEST),
       actualOutcome := Some (rnd (Suc m) < simulatedScore config p (rnd m))\<rparr>"
  by (simp add: scorePatient_def simulateOutcome_def)

lemma find_None_ids:
  "find (\<lambda>item. p_id item = i) predictions = None \<longleftrightarrow> i \<notin> p_id ` set predictions"
  by (auto simp add: find_None_iff)

lemma simulatedScore_bounds:
  "0.01 \<le> simulatedScore config p u \<and> simulatedScore config p u \<le> 0.99"
  unfolding simulatedScore_def Let_def by (simp only: min_def max_def) auto

lemma noise_bounds:
  "0 \<le> (u::real) \<Longrightarrow> u < 1 \<Longrightarrow> - 0.15 \<le> u * 0.3 - 0.15 \<and> u * 0.3 - 0.15 < 0.15"
  by simp

lemma scorePatient_draw:
  "\<exists>s m'. riskScore (fst (scorePatient rnd config predictions k p i m)) = Some s \<and>
          actualOutcome (fst (scorePatient rnd config predictions k p i m)) = Some (rnd m' < s)"
proof (cases "find (\<lambda>item. p_id item = id_field p) predictions")
  case None
  then show ?thesis by (auto simp add: scorePatient_absent)
next
  case (Some item)
  then show ?thesis by (auto simp add: scorePatient_found)
qed

lemma example_shuffled:
  "shuffledPatients insertionSort halfRandom examplePatients =
     [examplePatient ''P1'' 5, examplePatient ''P3'' 14]"
  by (simp add: shuffledPatients_def shuffledOf_def eligible_def randomComparator_def example_defs)

lemma example_fetch:
  "fetchPredictions textEngine exampleParse
     (requestOf insertionSort halfRandom examplePatients exampleOntology exampleConfig)
     = Inr [\<lparr>p_id = ''P1'', p_riskScore = 0.8\<rparr>]"
  by (simp add: fetchPredictions_def textEngine_def exampleParse_def)

lemma rejected_fetch:
  "fetchPredictions rejectingEngine failingParse
     (requestOf insertionSort halfRandom twoPatients exampleOntology exampleConfig)
     = Inl CallRejected"
  by (simp add: fetchPredictions_def rejectingEngine_def)

lemma scorePatient_counter:
  "snd (scorePatient rnd config predictions k p i m) = m + drawsOf predictions p"
  by (simp add: scorePatient_def drawsOf_def split: option.splits)

lemma nth_arrayMap_counter:
  assumes "\<And>x i m. snd (f x i m) = m + c x"
    and "j < length xs"
  shows "fst (arrayMap f i n xs) ! j = fst (f (xs ! j) (i + j) (n + sum_list (map c (take j xs))))"
  using assms(2)
proof (induction xs arbitrary: i n j)
  case Nil
  then show ?case by simp
next
  case (Cons x xs)
  show ?case
  proof (cases j)
    case 0
    then show ?thesis by (simp add: case_prod_beta)
  next
    case (Suc j')
    then have "j' < length xs" using Cons.prems by simp
    from Cons.IH [OF this, of "Suc i" "snd (f x i n)"]
    show ?thesis using Suc by (simp add: case_prod_beta assms(1) add.assoc)
  qed
qed

lemma counterAt_Suc:
  "i < length shuffled \<Longrightarrow>
   counterAt predictions n shuffled (Suc i) =
     counterAt predictions n shuffled i + drawsOf predictions (shuffled ! i)"
  by (simp add: counterAt_def take_Suc_conv_app_nth)

lemma counterAt_mono:
  "i \<le> j \<Longrightarrow> counterAt predictions n shuffled i \<le> counterAt predictions n shuffled j"
proof -
  assume "i \<le> j"
  then have "take j shuffled = take i shuffled @ take (j - i) (drop i shuffled)"
    by (metis le_add_diff_inverse take_add)
  then show ?thesis by (simp add: counterAt_def)
qed

lemma classify_success_nth_counter:
  assumes "fetchPredictions generateContent jsonParse (requestOf srt rnd patients ontology config)
             = Inr predictions"
    and "i < length (shuffledPatients srt rnd patients)"
  shows "classifyPatientRisk srt fl rnd generateContent jsonParse patients ontology config ! i
           = fst (scorePatient rnd config predictions
                    (splitIndexOf fl config (shuffledPatients srt rnd patients))
                    (shuffledPatients srt rnd patients ! i) i
                    (counterAt predictions (snd (shuffledOf srt rnd patients))
                       (shuffledPatients srt rnd patients) i))"
proof -
  let ?f = "scorePatient rnd config predictions
              (splitIndexOf fl config (shuffledPatients srt rnd patients))"
  have "snd (?f x i m) = m + drawsOf predictions x" for x i m
    by (rule scorePatient_counter)
  from nth_arrayMap_counter [of ?f "drawsOf predictions", OF this assms(2), of 0]
  show ?thesis
    by (simp add: classify_success [where fl = fl, OF assms(1)] counterAt_def)
qed

lemma uniform_grid_count:
  assumes "0 \<le> s" and "s \<le> 1" and "0 < K"
  shows "card {k. k < K \<and> real k / real K < s} = nat \<lceil>s * real K\<rceil>"
proof -
  have "s * real K \<le> 1 * real K"
    using assms by (intro mult_right_mono) simp_all
  then have "\<lceil>s * real K\<rceil> \<le> int K"
    by (simp add: ceiling_le_iff)
  then have le: "nat \<lceil>s * real K\<rceil> \<le> K" by (simp only: nat_le_iff)
  have "k < K \<and> real k / real K < s \<longleftrightarrow> k < nat \<lceil>s * real K\<rceil>" for k
  proof -
    have "real k / real K < s \<longleftrightarrow> real k < s * real K"
      using assms(3) by (simp add: divide_less_eq)
    also have "\<dots> \<longleftrightarrow> int k < \<lceil>s * real K\<rceil>"
      by (simp add: less_ceiling_iff)
    also have "\<dots> \<longleftrightarrow> k < nat \<lceil>s * real K\<rceil>" by linarith
    finally have "real k / real K < s \<longleftrightarrow> k < nat \<lceil>s * real K\<rceil>" .
    then show ?thesis using le by (meson less_le_trans)
  qed
  then have "{k. k < K \<and> real k / real K < s} = {..<nat \<lceil>s * real K\<rceil>}" by auto
  then show ?thesis by simp
qed

lemma uniform_interval:
  assumes "0 \<le> (s::real)" and "s \<le> 1"
  shows "{u. 0 \<le> u \<and> u < 1 \<and> u < s} = {0..<s}"
  using assms by auto

lemma varied_shuffled:
  "shuffledOf insertionSort variedRandom examplePatients =
     ([examplePatient ''P3'' 14, examplePatient ''P1'' 5], 1)"
  by (simp add: shuffledOf_def eligible_def randomComparator_def variedRandom_def example_defs)

lemma varied_fetch:
  "fetchPredictions textEngine exampleParse
     (requestOf insertionSort variedRandom examplePatients exampleOntology exampleConfig)
     = Inr [\<lparr>p_id = ''P1'', p_riskScore = 0.8\<rparr>]"
  by (simp add: fetchPredictions_def textEngine_def exampleParse_def)

lemma slider_value: "trainTestSplit sliderConfig = 5404319552844595 / 18014398509481984"
  by (simp add: sliderConfig_def binary64_defs)

lemma splitIndex_ninety:
  "length xs = 90 \<Longrightarrow> splitIndexOf binary64 sliderConfig xs = 62"
  by (simp add: splitIndexOf_def slider_value binary64_defs)

lemma exact_floor_ninety: "\<lfloor>(90::real) * (1 - trainTestSplit sliderConfig)\<rfloor> = 63"
  by (simp add: slider_value)

lemma ninety_eligible: "filter eligible ninetyPatients = ninetyPatients"
  by (simp add: ninetyPatients_def numberedPatient_def examplePatient_def eligible_def)

lemma ninety_shuffled_length:
  "length (shuffledPatients insertionSort halfRandom ninetyPatients) = 90"
proof -
  have "length (shuffledPatients insertionSort halfRandom ninetyPatients)
          = size (mset (shuffledPatients insertionSort halfRandom ninetyPatients))"
    by simp
  also have "\<dots> = size (mset (filter eligible ninetyPatients))"
    by (simp only: mset_shuffledPatients [OF permuting_insertionSort])
  also have "\<dots> = 90" by (simp add: ninety_eligible) (simp add: ninetyPatients_def)
  finally show ?thesis .
qed

lemma ninety_fetch:
  "fetchPredictions emptyTextEngine failingParse
     (requestOf insertionSort halfRandom ninetyPatients exampleOntology sliderConfig)
     = Inr []"
  by (simp add: fetchPredictions_def emptyTextEngine_def)

lemma ninety_split: "split (ninetyRun ! 62) = Some TEST"
proof -
  note f = ninety_fetch
  have i: "62 < length (shuffledPatients insertionSort halfRandom ninetyPatients)"
    by (simp add: ninety_shuffled_length)
  from classify_success_nth [where fl = binary64, OF f i] obtain m where
    "ninetyRun ! 62 =
       fst (scorePatient halfRandom sliderConfig []
              (splitIndexOf binary64 sliderConfig
                 (shuffledPatients insertionSort halfRandom ninetyPatients))
              (shuffledPatients insertionSort halfRandom ninetyPatients ! 62) 62 m)"
    unfolding ninetyRun_def by blast
  then show ?thesis
    by (simp add: scorePatient_split splitIndex_ninety [OF ninety_shuffled_length])
qed

section \<open>Properties of classifyPatientRisk\<close>

text \<open>
  Claim C1, as amended. When the call to the reasoning engine is rejected, or it answers
  with a text that is not empty and that \<^verbatim>\<open>JSON.parse\<close> rejects, classifyPatientRisk
  returns one record for each input patient, eligible or not, in the order of the input,
  with riskScore 0.1, riskCategory Low and split TRAIN; every other field, actualOutcome
  among them, is as in the input. The function returns a list on every input: nothing is
  raised past it.
\<close>

theorem total_fallback:
  assumes "(\<exists>e. generateContent (requestOf srt rnd patients ontology config) = Inl e) \<or>
           (\<exists>t e. generateContent (requestOf srt rnd patients ontology config) = Inr (Some t) \<and>
                  t \<noteq> [] \<and> jsonParse t = Inl e)"
    and "res = classifyPatientRisk srt fl rnd generateContent jsonParse patients ontology config"
  shows "res = map (\<lambda>p. p\<lparr>riskScore := Some 0.1, riskCategory := Some Low, split := Some TRAIN\<rparr>)
                 patients \<and>
         length res = length patients \<and>
         (\<forall>r \<in> set res. riskScore r = Some 0.1 \<and> riskCategory r = Some Low \<and> split r = Some TRAIN) \<and>
         map actualOutcome res = map actualOutcome patients"
proof -
  from assms(1) obtain e where
    "fetchPredictions generateContent jsonParse (requestOf srt rnd patients ontology config) = Inl e"
    using fetchPredictions_Inl_iff by blast
  then have res: "res = map fallbackRecord patients"
    using assms(2) by (simp add: classify_failure)
  have "fallbackRecord = (\<lambda>p. p\<lparr>riskScore := Some 0.1, riskCategory := Some Low, split := Some TRAIN\<rparr>)"
    by (rule ext) (simp add: fallbackRecord_def)
  then show ?thesis using res by (auto simp add: fallbackRecord_def)
qed

text \<open>The theorem at the example cohort.\<close>

theorem total_fallback_witness:
  "textEngine (requestOf insertionSort halfRandom examplePatients exampleOntology exampleConfig)
     = Inr (Some ''text'') \<and>
   failingParse ''text'' = Inl JsonSyntaxError \<and>
   length garbledRun = 3 \<and>
   map riskScore garbledRun = [Some 0.1, Some 0.1, Some 0.1] \<and>
   map riskCategory garbledRun = [Some Low, Some Low, Some Low] \<and>
   map split garbledRun = [Some TRAIN, Some TRAIN, Some TRAIN] \<and>
   map actualOutcome garbledRun = [None, None, None]"
proof -
  have h: "(\<exists>e. textEngine (requestOf insertionSort halfRandom examplePatients exampleOntology
                   exampleConfig) = Inl e) \<or>
           (\<exists>t e. textEngine (requestOf insertionSort halfRandom examplePatients exampleOntology
                   exampleConfig) = Inr (Some t) \<and> t \<noteq> [] \<and> failingParse t = Inl e)"
    by (simp add: textEngine_def failingParse_def)
  from total_fallback [OF h garbledRun_def]
  have eq: "garbledRun =
          map (\<lambda>p. p\<lparr>riskScore := Some 0.1, riskCategory := Some Low, split := Some TRAIN\<rparr>)
            examplePatients"
    by blast
  show ?thesis unfolding eq by (simp add: example_defs)
qed

text \<open>
  Claim C1 as stated fails for the empty text: the run below stays on the success path.
  Of two input patients it returns one record, for the eligible one, with a simulated
  score, split TEST and actualOutcome set.
\<close>

theorem empty_text_counterexample:
  "emptyTextEngine (requestOf insertionSort halfRandom twoPatients exampleOntology exampleConfig)
     = Inr (Some '''') \<and>
   length twoPatients = 2 \<and>
   length emptyTextRun = 1 \<and>
   emptyTextRun \<noteq> map fallbackRecord twoPatients \<and>
   map id_field emptyTextRun = [''P1''] \<and>
   map riskScore emptyTextRun = [Some 0.05] \<and>
   map split emptyTextRun = [Some TEST] \<and>
   map actualOutcome emptyTextRun = [Some False]"
  by (simp add: emptyTextRun_eq) (simp add: example_defs)

text \<open>
  Claim C2, as amended. On a run whose call to the reasoning engine succeeds, the shuffled
  list is a rearrangement of the patients with monthsOnCurrentTherapy of 1 or more, the
  result holds one record for each of them, in the shuffled order, the record at index i
  has split TRAIN when i is below the split index and TEST otherwise, and the TRAIN and
  TEST records together are as many as the eligible patients. The split index is
  floor(N * (1 - trainTestSplit)) as line 77 computes it: the difference and the product
  are rounded as binary64 arithmetic rounds them, and the floor is taken of the rounded
  product.
\<close>

theorem success_partition:
  assumes "permuting srt"
    and "fetchPredictions generateContent jsonParse (requestOf srt rnd patients ontology config)
           = Inr predictions"
    and "res = classifyPatientRisk srt fl rnd generateContent jsonParse patients ontology config"
    and "shuffled = shuffledPatients srt rnd patients"
  shows "mset shuffled = mset (filter (\<lambda>p. monthsOnCurrentTherapy p \<ge> 1) patients) \<and>
         list_all2 sameSubject res shuffled \<and>
         (\<forall>i < length shuffled.
            split (res ! i) =
              Some (if int i < \<lfloor>fl (real (length shuffled) * fl (1 - trainTestSplit config))\<rfloor>
                    then TRAIN else TEST)) \<and>
         length (trainSetOf res) + length (testSetOf res)
           = length (filter (\<lambda>p. monthsOnCurrentTherapy p \<ge> 1) patients)"
proof -
  have el: "eligible = (\<lambda>p. monthsOnCurrentTherapy p \<ge> 1)"
    by (rule ext) (simp add: eligible_def)
  have perm: "mset shuffled = mset (filter (\<lambda>p. monthsOnCurrentTherapy p \<ge> 1) patients)"
    using mset_shuffledPatients [OF assms(1)] assms(4) el by simp
  have same: "list_all2 sameSubject res shuffled"
    using classify_success_sameSubject [where fl = fl, OF assms(2)] assms(3,4) by simp
  have len: "length res = length shuffled"
    using same by (rule list_all2_lengthD)
  have sp: "split (res ! i) =
              Some (if int i < \<lfloor>fl (real (length shuffled) * fl (1 - trainTestSplit config))\<rfloor>
                    then TRAIN else TEST)" if "i < length shuffled" for i
  proof -
    from that have "i < length (shuffledPatients srt rnd patients)" using assms(4) by simp
    from classify_success_nth [where fl = fl, OF assms(2) this]
    show ?thesis using assms(3,4) by (auto simp add: scorePatient_split splitIndexOf_def)
  qed
  have "\<forall>r \<in> set res. split r = Some TRAIN \<or> split r = Some TEST"
  proof
    fix r assume "r \<in> set res"
    then obtain i where "i < length res" "r = res ! i" by (auto simp add: in_set_conv_nth)
    then show "split r = Some TRAIN \<or> split r = Some TEST" using sp [of i] len by simp
  qed
  then have "length (trainSetOf res) + length (testSetOf res) = length res"
    by (simp add: trainSetOf_def testSetOf_def filter_split_partition)
  also have "\<dots> = size (mset shuffled)" using len by simp
  also have "\<dots> = length (filter (\<lambda>p. monthsOnCurrentTherapy p \<ge> 1) patients)"
    by (simp only: perm size_mset)
  finally show ?thesis using perm same sp by blast
qed

text \<open>The theorem at the example cohort.\<close>

theorem success_partition_witness:
  "permuting insertionSort \<and>
   fetchPredictions textEngine exampleParse
     (requestOf insertionSort halfRandom examplePatients exampleOntology exampleConfig)
     = Inr [\<lparr>p_id = ''P1'', p_riskScore = 0.8\<rparr>] \<and>
   length (filter (\<lambda>p. monthsOnCurrentTherapy p \<ge> 1) examplePatients) = 2 \<and>
   length (trainSetOf successRun) + length (testSetOf successRun) = 2 \<and>
   split (successRun ! 0) = Some TRAIN \<and> split (successRun ! 1) = Some TEST \<and>
   fetchPredictions emptyTextEngine failingParse
     (requestOf insertionSort halfRandom ninetyPatients exampleOntology sliderConfig)
     = Inr [] \<and>
   length (shuffledPatients insertionSort halfRandom ninetyPatients) = 90 \<and>
   \<lfloor>binary64 (90 * binary64 (1 - trainTestSplit sliderConfig))\<rfloor> = 62 \<and>
   split (ninetyRun ! 61) = Some TRAIN \<and> split (ninetyRun ! 62) = Some TEST"
proof -
  note t90 = success_partition [OF permuting_insertionSort ninety_fetch ninetyRun_def refl]
  note l90 = ninety_shuffled_length
  have k90: "\<lfloor>binary64 (90 * binary64 (1 - trainTestSplit sliderConfig))\<rfloor> = 62"
    using splitIndex_ninety [OF l90] by (simp add: splitIndexOf_def l90)
  from t90 have "\<forall>i < 90. split (ninetyRun ! i) = Some (if int i < 62 then TRAIN else TEST)"
    unfolding l90 using k90 by simp
  then have s90: "split (ninetyRun ! 61) = Some TRAIN" "split (ninetyRun ! 62) = Some TEST"
    by simp_all
  note t = success_partition [OF permuting_insertionSort example_fetch successRun_def refl]
  have n: "length (filter (\<lambda>p. monthsOnCurrentTherapy p \<ge> 1) examplePatients) = 2"
    by (simp add: example_defs)
  have l: "length (shuffledPatients insertionSort halfRandom examplePatients) = 2"
    by (simp add: example_shuffled)
  from t l have "split (successRun ! 0) = Some TRAIN" "split (successRun ! 1) = Some TEST"
    by (simp_all add: exampleConfig_def binary64_defs)
  with t n show ?thesis
    using permuting_insertionSort example_fetch ninety_fetch l90 k90 s90 by simp
qed

text \<open>
  Claim C2 as stated fails on the fallback path: both input patients are given TRAIN,
  while one of them is eligible. And it fails on the success path when the product is
  read over the reals: with 90 eligible patients and the value 0.3 of the split slider
  the exact floor of N * (1 - trainTestSplit) is 63, and the record at index 62 is given
  TEST.
\<close>

theorem fallback_partition_counterexample:
  "rejectingEngine (requestOf insertionSort halfRandom twoPatients exampleOntology exampleConfig)
     = Inl CallRejected \<and>
   length (trainSetOf rejectedRun) + length (testSetOf rejectedRun) = 2 \<and>
   length (filter eligible twoPatients) = 1 \<and>
   length (trainSetOf rejectedRun) + length (testSetOf rejectedRun)
     \<noteq> length (filter eligible twoPatients) \<and>
   emptyTextEngine (requestOf insertionSort halfRandom ninetyPatients exampleOntology sliderConfig)
     = Inr (Some '''') \<and>
   length (filter eligible ninetyPatients) = 90 \<and>
   \<lfloor>(90::real) * (1 - trainTestSplit sliderConfig)\<rfloor> = 63 \<and>
   split (ninetyRun ! 62) = Some TEST"
proof -
  have a: "rejectingEngine
             (requestOf insertionSort halfRandom twoPatients exampleOntology exampleConfig)
             = Inl CallRejected \<and>
           length (trainSetOf rejectedRun) + length (testSetOf rejectedRun) = 2 \<and>
           length (filter eligible twoPatients) = 1"
    by (simp add: rejectedRun_eq trainSetOf_def testSetOf_def fallbackRecord_def eligible_def
        twoPatients_def examplePatient_def rejectingEngine_def)
  have b: "length (filter eligible ninetyPatients) = 90"
    by (simp add: ninety_eligible) (simp add: ninetyPatients_def)
  have c: "emptyTextEngine
             (requestOf insertionSort halfRandom ninetyPatients exampleOntology sliderConfig)
             = Inr (Some '''')"
    by (simp add: emptyTextEngine_def)
  show ?thesis using a b c exact_floor_ninety ninety_split by simp
qed

text \<open>
  Claim C3. The category of a score is High above 0.7, Medium above 0.4 and up to 0.7,
  Low up to 0.4; so 0.7 is Medium and 0.4 is Low. Every record that classifyPatientRisk
  returns, on every path, has a riskScore, and its riskCategory is the category of that
  score.
\<close>

theorem category_of_score:
  "(\<forall>s. (s > 0.7 \<longrightarrow> categoryOf s = High) \<and>
        (0.4 < s \<and> s \<le> 0.7 \<longrightarrow> categoryOf s = Medium) \<and>
        (s \<le> 0.4 \<longrightarrow> categoryOf s = Low)) \<and>
   categoryOf 0.7 = Medium \<and> categoryOf 0.4 = Low \<and>
   (\<forall>r \<in> set (classifyPatientRisk srt fl rnd generateContent jsonParse patients ontology config).
      \<exists>s. riskScore r = Some s \<and> riskCategory r = Some (categoryOf s))"
proof -
  let ?res = "classifyPatientRisk srt fl rnd generateContent jsonParse patients ontology config"
  have cat: "\<forall>s. (s > 0.7 \<longrightarrow> categoryOf s = High) \<and>
        (0.4 < s \<and> s \<le> 0.7 \<longrightarrow> categoryOf s = Medium) \<and>
        (s \<le> 0.4 \<longrightarrow> categoryOf s = Low)"
    by (simp add: categoryOf_def)
  have b: "categoryOf 0.7 = Medium" "categoryOf 0.4 = Low"
    by (simp_all add: categoryOf_def)
  have "\<exists>s. riskScore r = Some s \<and> riskCategory r = Some (categoryOf s)" if r: "r \<in> set ?res" for r
  proof (cases "fetchPredictions generateContent jsonParse (requestOf srt rnd patients ontology config)")
    case (Inl e)
    then have "?res = map fallbackRecord patients" by (rule classify_failure)
    with r obtain p where "r = fallbackRecord p" by auto
    then have "riskScore r = Some 0.1 \<and> riskCategory r = Some (categoryOf 0.1)"
      by (simp add: fallbackRecord_def categoryOf_def)
    then show ?thesis by blast
  next
    case (Inr predictions)
    from r obtain i where i: "i < length ?res" "r = ?res ! i" by (auto simp add: in_set_conv_nth)
    then have "i < length (shuffledPatients srt rnd patients)"
      by (simp add: classify_success_length [where fl = fl, OF Inr])
    from classify_success_nth [where fl = fl, OF Inr this] i(2) scorePatient_category
    show ?thesis by metis
  qed
  then show ?thesis using cat b by blast
qed

text \<open>The theorem at the example cohort.\<close>

theorem category_of_score_witness:
  "categoryOf 0.8 = High \<and> categoryOf 0.5 = Medium \<and> categoryOf 0.2 = Low \<and>
   riskScore (successRun ! 0) = Some 0.8 \<and> riskCategory (successRun ! 0) = Some High"
proof -
  note t = category_of_score [of insertionSort binary64 halfRandom textEngine exampleParse
      examplePatients exampleOntology exampleConfig]
  from t have "(0.8::real) > 0.7 \<longrightarrow> categoryOf 0.8 = High"
    and "0.4 < (0.5::real) \<and> (0.5::real) \<le> 0.7 \<longrightarrow> categoryOf 0.5 = Medium"
    and "(0.2::real) \<le> 0.4 \<longrightarrow> categoryOf 0.2 = Low"
    by blast+
  then have c: "categoryOf 0.8 = High" "categoryOf 0.5 = Medium" "categoryOf 0.2 = Low"
    by simp_all
  have "successRun ! 0 \<in> set successRun" by (simp add: successRun_eq)
  with t obtain s where "riskScore (successRun ! 0) = Some s"
    "riskCategory (successRun ! 0) = Some (categoryOf s)"
    unfolding successRun_def by blast
  moreover have "riskScore (successRun ! 0) = Some 0.8"
    by (simp add: successRun_eq examplePatient_def)
  ultimately have "s = 0.8" by simp
  with \<open>riskCategory (successRun ! 0) = Some (categoryOf s)\<close> c
  have "riskCategory (successRun ! 0) = Some High" by simp
  with \<open>riskScore (successRun ! 0) = Some 0.8\<close> c show ?thesis by simp
qed

text \<open>
  Claim C4, as amended. On a run whose call to the reasoning engine succeeds, the
  callback of the record at index i makes the calls of \<^verbatim>\<open>Math.random()\<close> numbered from
  \<open>counterAt i\<close> up to, not including, \<open>counterAt (i + 1)\<close>: calls that come after those of
  the sort and that no other record shares. The last of them decides the outcome:
  actualOutcome is the truth of "the value drawn is below the riskScore", and the
  riskScore is fixed before that call (it is the score of the prediction, or the simulated
  score from the call before). For a score in [0, 1] the values of [0, 1) that give true
  are those of [0, score), and of K equally spaced values k / K exactly the first
  ceiling(score * K) give true: under a uniform source the outcome is a Bernoulli draw
  whose probability of true is the riskScore. On the fallback path every record has
  riskScore 0.1 and its actualOutcome is left as in the input: no outcome is drawn.
\<close>

theorem outcome_draw:
  assumes "res = classifyPatientRisk srt fl rnd generateContent jsonParse patients ontology config"
    and "request = requestOf srt rnd patients ontology config"
    and "shuffled = shuffledPatients srt rnd patients"
    and "n = snd (shuffledOf srt rnd patients)"
  shows "(\<forall>predictions. fetchPredictions generateContent jsonParse request = Inr predictions \<longrightarrow>
            length res = length shuffled \<and>
            (\<forall>i < length shuffled.
               n \<le> counterAt predictions n shuffled i \<and>
               counterAt predictions n shuffled (Suc i) =
                 counterAt predictions n shuffled i + drawsOf predictions (shuffled ! i) \<and>
               (\<forall>j. i < j \<longrightarrow>
                  counterAt predictions n shuffled (Suc i) \<le> counterAt predictions n shuffled j) \<and>
               (\<forall>item. find (\<lambda>item. p_id item = id_field (shuffled ! i)) predictions = Some item \<longrightarrow>
                  drawsOf predictions (shuffled ! i) = 1 \<and>
                  riskScore (res ! i) = Some (p_riskScore item) \<and>
                  actualOutcome (res ! i) =
                    Some (simulateOutcome (p_riskScore item)
                            (rnd (counterAt predictions n shuffled i)))) \<and>
               (find (\<lambda>item. p_id item = id_field (shuffled ! i)) predictions = None \<longrightarrow>
                  drawsOf predictions (shuffled ! i) = 2 \<and>
                  riskScore (res ! i) =
                    Some (simulatedScore config (shuffled ! i)
                            (rnd (counterAt predictions n shuffled i))) \<and>
                  actualOutcome (res ! i) =
                    Some (simulateOutcome
                            (simulatedScore config (shuffled ! i)
                               (rnd (counterAt predictions n shuffled i)))
                            (rnd (counterAt predictions n shuffled i + 1)))))) \<and>
         (\<forall>s. 0 \<le> s \<and> s \<le> 1 \<longrightarrow>
            {u. 0 \<le> u \<and> u < 1 \<and> simulateOutcome s u} = {0 ..< s} \<and>
            (\<forall>K > 0. card {k. k < K \<and> simulateOutcome s (real k / real K)}
                      = nat \<lceil>s * real K\<rceil>)) \<and>
         (\<forall>e. fetchPredictions generateContent jsonParse request = Inl e \<longrightarrow>
            map riskScore res = map (\<lambda>p. Some 0.1) patients \<and>
            map actualOutcome res = map actualOutcome patients)"
proof (intro conjI allI impI)
  fix predictions
  assume ok: "fetchPredictions generateContent jsonParse request = Inr predictions"
  then have ok': "fetchPredictions generateContent jsonParse
                    (requestOf srt rnd patients ontology config) = Inr predictions"
    using assms(2) by simp
  show "length res = length shuffled"
    using assms(1,3) by (simp add: classify_success_length [where fl = fl, OF ok'])
  fix i
  assume i: "i < length shuffled"
  then have i': "i < length (shuffledPatients srt rnd patients)" using assms(3) by simp
  have r: "res ! i = fst (scorePatient rnd config predictions (splitIndexOf fl config shuffled)
                            (shuffled ! i) i (counterAt predictions n shuffled i))"
    using classify_success_nth_counter [where fl = fl, OF ok' i'] assms(1,3,4) by simp
  show "n \<le> counterAt predictions n shuffled i"
    by (simp add: counterAt_def)
  show "counterAt predictions n shuffled (Suc i) =
          counterAt predictions n shuffled i + drawsOf predictions (shuffled ! i)"
    using i by (rule counterAt_Suc)
  {
    fix j :: nat
    assume "i < j"
    then have "Suc i \<le> j" by simp
    then show "counterAt predictions n shuffled (Suc i) \<le> counterAt predictions n shuffled j"
      by (rule counterAt_mono)
  }
  {
    fix item
    assume f: "find (\<lambda>item. p_id item = id_field (shuffled ! i)) predictions = Some item"
    show "drawsOf predictions (shuffled ! i) = 1"
      using f by (simp add: drawsOf_def)
    show "riskScore (res ! i) = Some (p_riskScore item)"
      unfolding r using f by (simp add: scorePatient_found)
    show "actualOutcome (res ! i) =
            Some (simulateOutcome (p_riskScore item) (rnd (counterAt predictions n shuffled i)))"
      unfolding r using f by (simp add: scorePatient_found simulateOutcome_def)
  }
  {
    assume f: "find (\<lambda>item. p_id item = id_field (shuffled ! i)) predictions = None"
    show "drawsOf predictions (shuffled ! i) = 2"
      using f by (simp add: drawsOf_def)
    show "riskScore (res ! i) =
            Some (simulatedScore config (shuffled ! i) (rnd (counterAt predictions n shuffled i)))"
      unfolding r using f by (simp add: scorePatient_absent)
    show "actualOutcome (res ! i) =
            Some (simulateOutcome
                    (simulatedScore config (shuffled ! i) (rnd (counterAt predictions n shuffled i)))
                    (rnd (counterAt predictions n shuffled i + 1)))"
      unfolding r using f by (simp add: scorePatient_absent simulateOutcome_def)
  }
next
  fix s :: real
  assume s: "0 \<le> s \<and> s \<le> 1"
  then show "{u. 0 \<le> u \<and> u < 1 \<and> simulateOutcome s u} = {0 ..< s}"
    by (simp add: uniform_interval simulateOutcome_def)
  fix K :: nat
  assume "0 < K"
  then show "card {k. k < K \<and> simulateOutcome s (real k / real K)} = nat \<lceil>s * real K\<rceil>"
    using s by (simp add: uniform_grid_count simulateOutcome_def)
next
  fix e
  assume "fetchPredictions generateContent jsonParse request = Inl e"
  then have "res = map fallbackRecord patients"
    using assms by (simp add: classify_failure)
  then show "map riskScore res = map (\<lambda>p. Some 0.1) patients"
    and "map actualOutcome res = map actualOutcome patients"
    by (simp_all add: fallbackRecord_def)
qed

text \<open>The theorem at the example cohort.\<close>

theorem outcome_draw_witness:
  "fetchPredictions textEngine exampleParse
     (requestOf insertionSort variedRandom examplePatients exampleOntology exampleConfig)
     = Inr [\<lparr>p_id = ''P1'', p_riskScore = 0.8\<rparr>] \<and>
   shuffledPatients insertionSort variedRandom examplePatients
     = [examplePatient ''P3'' 14, examplePatient ''P1'' 5] \<and>
   snd (shuffledOf insertionSort variedRandom examplePatients) = 1 \<and>
   map variedRandom [0, 1, 2, 3] = [0, 0.1, 0.2, 0.9] \<and>
   riskScore (variedRun ! 0) = Some 0.28 \<and>
   actualOutcome (variedRun ! 0) = Some (simulateOutcome 0.28 (variedRandom 2)) \<and>
   actualOutcome (variedRun ! 0) = Some True \<and>
   riskScore (variedRun ! 1) = Some 0.8 \<and>
   actualOutcome (variedRun ! 1) = Some (simulateOutcome 0.8 (variedRandom 3)) \<and>
   actualOutcome (variedRun ! 1) = Some False \<and>
   card {k. k < (10::nat) \<and> simulateOutcome 0.8 (real k / real (10::nat))} = 8 \<and>
   fetchPredictions rejectingEngine failingParse
     (requestOf insertionSort halfRandom twoPatients exampleOntology exampleConfig)
     = Inl CallRejected \<and>
   map actualOutcome rejectedRun = map actualOutcome twoPatients"
proof -
  let ?preds = "[\<lparr>p_id = ''P1'', p_riskScore = 0.8\<rparr>]"
  let ?sh = "[examplePatient ''P3'' 14, examplePatient ''P1'' 5]"
  note t1 = outcome_draw [OF variedRun_def refl refl refl]
  note t2 = outcome_draw [OF rejectedRun_def refl refl refl]
  have sh: "shuffledPatients insertionSort variedRandom examplePatients = ?sh"
    and n: "snd (shuffledOf insertionSort variedRandom examplePatients) = 1"
    by (simp_all add: shuffledPatients_def varied_shuffled)
  have v: "map variedRandom [0, 1, 2, 3] = [0, 0.1, 0.2, 0.9]"
    by (simp add: variedRandom_def)
  have f0: "find (\<lambda>item. p_id item = id_field (?sh ! 0)) ?preds = None"
    and f1: "find (\<lambda>item. p_id item = id_field (?sh ! 1)) ?preds = Some \<lparr>p_id = ''P1'', p_riskScore = 0.8\<rparr>"
    by (simp_all add: examplePatient_def)
  have c0: "counterAt ?preds 1 ?sh 0 = 1" and c1: "counterAt ?preds 1 ?sh 1 = 3"
    by (simp_all add: counterAt_def drawsOf_def examplePatient_def)
  from t1 varied_fetch have all:
    "\<forall>i < length ?sh.
       (\<forall>item. find (\<lambda>item. p_id item = id_field (?sh ! i)) ?preds = Some item \<longrightarrow>
          riskScore (variedRun ! i) = Some (p_riskScore item) \<and>
          actualOutcome (variedRun ! i) =
            Some (simulateOutcome (p_riskScore item) (variedRandom (counterAt ?preds 1 ?sh i)))) \<and>
       (find (\<lambda>item. p_id item = id_field (?sh ! i)) ?preds = None \<longrightarrow>
          riskScore (variedRun ! i) =
            Some (simulatedScore exampleConfig (?sh ! i) (variedRandom (counterAt ?preds 1 ?sh i))) \<and>
          actualOutcome (variedRun ! i) =
            Some (simulateOutcome
                    (simulatedScore exampleConfig (?sh ! i) (variedRandom (counterAt ?preds 1 ?sh i)))
                    (variedRandom (counterAt ?preds 1 ?sh i + 1))))"
    unfolding sh n by blast
  have s: "simulatedScore exampleConfig (examplePatient ''P3'' 14) (variedRandom 1) = 0.28"
    by (simp add: simulatedScore_def exampleConfig_def examplePatient_def variedRandom_def)
  have l: "0 < length ?sh" "1 < length ?sh" by simp_all
  note a0 = all [rule_format, OF l(1), THEN conjunct2, THEN mp, OF f0]
  note a1 = all [rule_format, OF l(2), THEN conjunct1, THEN spec, THEN mp, OF f1]
  have p0: "?sh ! 0 = examplePatient ''P3'' 14" by simp
  from a0 have r0: "riskScore (variedRun ! 0) = Some 0.28"
    "actualOutcome (variedRun ! 0) = Some (simulateOutcome 0.28 (variedRandom 2))"
    unfolding c0 p0 s by (simp_all add: numeral_2_eq_2)
  from a1 have r1: "riskScore (variedRun ! 1) = Some 0.8"
    "actualOutcome (variedRun ! 1) = Some (simulateOutcome 0.8 (variedRandom 3))"
    unfolding c1 by (simp_all add: numeral_3_eq_3)
  have b: "actualOutcome (variedRun ! 0) = Some True" "actualOutcome (variedRun ! 1) = Some False"
    using r0(2) r1(2) by (simp_all add: variedRandom_def simulateOutcome_def)
  have "0 \<le> (0.8::real) \<and> (0.8::real) \<le> 1" by simp
  with t1 have "\<forall>K > 0. card {k. k < K \<and> simulateOutcome 0.8 (real k / real K)}
                        = nat \<lceil>0.8 * real K\<rceil>"
    by blast
  then have "(0::nat) < 10 \<longrightarrow>
      card {k. k < (10::nat) \<and> simulateOutcome 0.8 (real k / real (10::nat))}
        = nat \<lceil>0.8 * real (10::nat)\<rceil>"
    by (rule spec)
  then have g: "card {k. k < (10::nat) \<and> simulateOutcome 0.8 (real k / real (10::nat))} = 8"
    by simp
  from t2 rejected_fetch have fb: "map actualOutcome rejectedRun = map actualOutcome twoPatients"
    by blast
  show ?thesis
    using varied_fetch sh n v r0 r1 b g rejected_fetch fb by blast
qed

text \<open>
  Claim C4 as stated fails on the fallback path: the records have a riskScore and no
  actualOutcome.
\<close>

theorem fallback_outcome_counterexample:
  "rejectingEngine (requestOf insertionSort halfRandom twoPatients exampleOntology exampleConfig)
     = Inl CallRejected \<and>
   map riskScore rejectedRun = [Some 0.1, Some 0.1] \<and>
   map actualOutcome rejectedRun = [None, None]"
  by (simp add: rejectedRun_eq fallbackRecord_def example_defs)

text \<open>
  Claim C5. On a run whose call to the reasoning engine succeeds, the patient at index i
  of the shuffled list is an eligible input patient. When a prediction names its id, the
  record at index i has the riskScore of the first such prediction. When none does, the
  riskScore is min 0.99 (max 0.01 (base + noise)), with base 0.4 when
  monthsOnCurrentTherapy is above lookbackMonths and 0.05 otherwise, and noise the value
  r * 0.3 - 0.15 for a value r of the random source, which lies between -0.15 and 0.15
  when r is in [0, 1); that score is between 0.01 and 0.99 whatever r is.
\<close>

theorem partial_fallback_score:
  assumes "permuting srt"
    and "fetchPredictions generateContent jsonParse (requestOf srt rnd patients ontology config)
           = Inr predictions"
    and "res = classifyPatientRisk srt fl rnd generateContent jsonParse patients ontology config"
    and "shuffled = shuffledPatients srt rnd patients"
    and "i < length shuffled"
    and "p = shuffled ! i"
  shows "p \<in> set patients \<and> monthsOnCurrentTherapy p \<ge> 1 \<and>
         (\<forall>item. find (\<lambda>item. p_id item = id_field p) predictions = Some item \<longrightarrow>
            riskScore (res ! i) = Some (p_riskScore item)) \<and>
         (id_field p \<in> p_id ` set predictions \<longrightarrow>
            (\<exists>item \<in> set predictions. p_id item = id_field p \<and>
               riskScore (res ! i) = Some (p_riskScore item))) \<and>
         (id_field p \<notin> p_id ` set predictions \<longrightarrow>
            (\<exists>m. riskScore (res ! i) =
                    Some (min 0.99 (max 0.01
                      ((if monthsOnCurrentTherapy p > lookbackMonths config then 0.4 else 0.05)
                        + (rnd m * 0.3 - 0.15)))) \<and>
                 (0 \<le> rnd m \<and> rnd m < 1 \<longrightarrow>
                    - 0.15 \<le> rnd m * 0.3 - 0.15 \<and> rnd m * 0.3 - 0.15 < 0.15)) \<and>
            (\<exists>s. riskScore (res ! i) = Some s \<and> 0.01 \<le> s \<and> s \<le> 0.99))"
proof -
  have "p \<in> set shuffled" using assms(5,6) by simp
  then have "p \<in> set_mset (mset shuffled)" by simp
  then have "p \<in> set_mset (mset (filter eligible patients))"
    using mset_shuffledPatients [OF assms(1), of rnd patients] assms(4) by simp
  then have el: "p \<in> set patients \<and> monthsOnCurrentTherapy p \<ge> 1"
    by (simp add: eligible_def)
  from assms(4,5) have "i < length (shuffledPatients srt rnd patients)" by simp
  from classify_success_nth [where fl = fl, OF assms(2) this] obtain m where
    r: "res ! i = fst (scorePatient rnd config predictions (splitIndexOf fl config shuffled) p i m)"
    using assms(3,4,6) by auto
  have found: "riskScore (res ! i) = Some (p_riskScore item)"
    if "find (\<lambda>item. p_id item = id_field p) predictions = Some item" for item
    using r that by (simp add: scorePatient_found)
  have present: "\<exists>item \<in> set predictions. p_id item = id_field p \<and>
               riskScore (res ! i) = Some (p_riskScore item)"
    if "id_field p \<in> p_id ` set predictions"
  proof -
    from that have "find (\<lambda>item. p_id item = id_field p) predictions \<noteq> None"
      by (simp add: find_None_ids)
    then obtain item where f: "find (\<lambda>item. p_id item = id_field p) predictions = Some item"
      by blast
    then have "item \<in> set predictions \<and> p_id item = id_field p"
      by (auto simp add: find_Some_iff)
    then show ?thesis using found [OF f] by blast
  qed
  have absent: "(\<exists>m. riskScore (res ! i) =
                    Some (min 0.99 (max 0.01
                      ((if monthsOnCurrentTherapy p > lookbackMonths config then 0.4 else 0.05)
                        + (rnd m * 0.3 - 0.15)))) \<and>
                 (0 \<le> rnd m \<and> rnd m < 1 \<longrightarrow>
                    - 0.15 \<le> rnd m * 0.3 - 0.15 \<and> rnd m * 0.3 - 0.15 < 0.15)) \<and>
            (\<exists>s. riskScore (res ! i) = Some s \<and> 0.01 \<le> s \<and> s \<le> 0.99)"
    if "id_field p \<notin> p_id ` set predictions"
  proof -
    from that have "find (\<lambda>item. p_id item = id_field p) predictions = None"
      by (simp add: find_None_ids)
    then have s: "riskScore (res ! i) = Some (simulatedScore config p (rnd m))"
      using r by (simp add: scorePatient_absent)
    then have "riskScore (res ! i) =
                    Some (min 0.99 (max 0.01
                      ((if monthsOnCurrentTherapy p > lookbackMonths config then 0.4 else 0.05)
                        + (rnd m * 0.3 - 0.15))))"
      by (simp add: simulatedScore_def Let_def)
    moreover have "0 \<le> rnd m \<and> rnd m < 1 \<longrightarrow>
                    - 0.15 \<le> rnd m * 0.3 - 0.15 \<and> rnd m * 0.3 - 0.15 < 0.15"
      using noise_bounds by blast
    moreover have "\<exists>s. riskScore (res ! i) = Some s \<and> 0.01 \<le> s \<and> s \<le> 0.99"
      using s simulatedScore_bounds by blast
    ultimately show ?thesis by blast
  qed
  show ?thesis using el found present absent by blast
qed

text \<open>The theorem at the example cohort.\<close>

theorem partial_fallback_score_witness:
  "permuting insertionSort \<and>
   fetchPredictions textEngine exampleParse
     (requestOf insertionSort halfRandom examplePatients exampleOntology exampleConfig)
     = Inr [\<lparr>p_id = ''P1'', p_riskScore = 0.8\<rparr>] \<and>
   shuffledPatients insertionSort halfRandom examplePatients ! 0 = examplePatient ''P1'' 5 \<and>
   shuffledPatients insertionSort halfRandom examplePatients ! 1 = examplePatient ''P3'' 14 \<and>
   riskScore (successRun ! 0) = Some 0.8 \<and>
   (\<exists>s. riskScore (successRun ! 1) = Some s \<and> 0.01 \<le> s \<and> s \<le> 0.99)"
proof -
  have i0: "0 < length (shuffledPatients insertionSort halfRandom examplePatients)"
    and i1: "1 < length (shuffledPatients insertionSort halfRandom examplePatients)"
    by (simp_all add: example_shuffled)
  note t0 = partial_fallback_score [OF permuting_insertionSort example_fetch successRun_def refl i0 refl]
  note t1 = partial_fallback_score [OF permuting_insertionSort example_fetch successRun_def refl i1 refl]
  have "riskScore (successRun ! 0) = Some 0.8"
    using t0 by (simp add: example_shuffled examplePatient_def)
  moreover have "\<exists>s. riskScore (successRun ! 1) = Some s \<and> 0.01 \<le> s \<and> s \<le> 0.99"
    using t1 by (simp add: example_shuffled examplePatient_def)
  ultimately show ?thesis
    using permuting_insertionSort example_fetch by (simp add: example_shuffled)
qed

text \<open>
  Claim C8, as amended. On a run whose call to the reasoning engine succeeds, the result
  holds one record for each eligible patient and none for a patient that is not eligible:
  its records are the shuffled eligible patients, each with monthsOnCurrentTherapy of 1 or
  more, one split, TRAIN or TEST, and actualOutcome set. On the fallback path every input
  patient, eligible or not, has a record with split TRAIN, and actualOutcome is left as in
  the input.
\<close>

theorem split_assignment:
  assumes "permuting srt"
    and "res = classifyPatientRisk srt fl rnd generateContent jsonParse patients ontology config"
    and "request = requestOf srt rnd patients ontology config"
    and "shuffled = shuffledPatients srt rnd patients"
  shows "(\<forall>predictions. fetchPredictions generateContent jsonParse request = Inr predictions \<longrightarrow>
            mset shuffled = mset (filter (\<lambda>p. monthsOnCurrentTherapy p \<ge> 1) patients) \<and>
            list_all2 sameSubject res shuffled \<and>
            (\<forall>r \<in> set res.
               monthsOnCurrentTherapy r \<ge> 1 \<and>
               (split r = Some TRAIN \<or> split r = Some TEST) \<and>
               actualOutcome r \<noteq> None)) \<and>
         (\<forall>e. fetchPredictions generateContent jsonParse request = Inl e \<longrightarrow>
            list_all2 sameSubject res patients \<and>
            (\<forall>r \<in> set res. split r = Some TRAIN) \<and>
            map actualOutcome res = map actualOutcome patients)"
proof (intro conjI allI impI)
  fix predictions
  assume "fetchPredictions generateContent jsonParse request = Inr predictions"
  then have ok: "fetchPredictions generateContent jsonParse
                   (requestOf srt rnd patients ontology config) = Inr predictions"
    using assms(3) by simp
  have el: "eligible = (\<lambda>p. monthsOnCurrentTherapy p \<ge> 1)"
    by (rule ext) (simp add: eligible_def)
  show perm: "mset shuffled = mset (filter (\<lambda>p. monthsOnCurrentTherapy p \<ge> 1) patients)"
    using mset_shuffledPatients [OF assms(1)] assms(4) el by simp
  show same: "list_all2 sameSubject res shuffled"
    using classify_success_sameSubject [where fl = fl, OF ok] assms(2,4) by simp
  show "\<forall>r \<in> set res.
               monthsOnCurrentTherapy r \<ge> 1 \<and>
               (split r = Some TRAIN \<or> split r = Some TEST) \<and>
               actualOutcome r \<noteq> None"
  proof
    fix r assume "r \<in> set res"
    then obtain i where i: "i < length res" "r = res ! i" by (auto simp add: in_set_conv_nth)
    then have i': "i < length (shuffledPatients srt rnd patients)"
      using assms(2) by (simp add: classify_success_length [where fl = fl, OF ok])
    from classify_success_nth [where fl = fl, OF ok i'] obtain m where
      r: "r = fst (scorePatient rnd config predictions
                  (splitIndexOf fl config (shuffledPatients srt rnd patients))
                  (shuffledPatients srt rnd patients ! i) i m)"
      using i(2) assms(2) by auto
    have "shuffled ! i \<in> set_mset (mset shuffled)" using i' assms(4) by simp
    then have "monthsOnCurrentTherapy (shuffled ! i) \<ge> 1" unfolding perm by simp
    then have "monthsOnCurrentTherapy r \<ge> 1"
      using r assms(4) by (simp add: scorePatient_months)
    moreover have "split r = Some TRAIN \<or> split r = Some TEST"
      using r by (simp add: scorePatient_split)
    moreover have "actualOutcome r \<noteq> None"
      using r scorePatient_draw [of rnd config predictions] by (metis option.distinct(1))
    ultimately show "monthsOnCurrentTherapy r \<ge> 1 \<and>
               (split r = Some TRAIN \<or> split r = Some TEST) \<and>
               actualOutcome r \<noteq> None"
      by blast
  qed
next
  fix e
  assume "fetchPredictions generateContent jsonParse request = Inl e"
  then have res: "res = map fallbackRecord patients"
    using assms(2,3) by (simp add: classify_failure)
  show "list_all2 sameSubject res patients"
    unfolding res by (simp add: list_all2_map1 list_all2_same fallbackRecord_sameSubject)
  show "\<forall>r \<in> set res. split r = Some TRAIN"
    unfolding res by (simp add: fallbackRecord_def)
  show "map actualOutcome res = map actualOutcome patients"
    unfolding res by (simp add: fallbackRecord_def)
qed

text \<open>The theorem at the example inputs.\<close>

theorem split_assignment_witness:
  "permuting insertionSort \<and>
   fetchPredictions textEngine exampleParse
     (requestOf insertionSort halfRandom examplePatients exampleOntology exampleConfig)
     = Inr [\<lparr>p_id = ''P1'', p_riskScore = 0.8\<rparr>] \<and>
   map id_field successRun = [''P1'', ''P3''] \<and>
   map split successRun = [Some TRAIN, Some TEST] \<and>
   list_all2 sameSubject successRun [examplePatient ''P1'' 5, examplePatient ''P3'' 14] \<and>
   fetchPredictions rejectingEngine failingParse
     (requestOf insertionSort halfRandom twoPatients exampleOntology exampleConfig)
     = Inl CallRejected \<and>
   list_all2 sameSubject rejectedRun twoPatients \<and>
   map actualOutcome rejectedRun = [None, None]"
proof -
  note t1 = split_assignment [OF permuting_insertionSort successRun_def refl refl]
  note t2 = split_assignment [OF permuting_insertionSort rejectedRun_def refl refl]
  from t1 example_fetch
  have "list_all2 sameSubject successRun [examplePatient ''P1'' 5, examplePatient ''P3'' 14]"
    by (simp add: example_shuffled)
  moreover from t2 rejected_fetch
  have "list_all2 sameSubject rejectedRun twoPatients"
    "map actualOutcome rejectedRun = map actualOutcome twoPatients"
    by blast+
  moreover have "map id_field successRun = [''P1'', ''P3'']"
    "map split successRun = [Some TRAIN, Some TEST]"
    by (simp_all add: successRun_eq examplePatient_def)
  ultimately show ?thesis
    using permuting_insertionSort example_fetch rejected_fetch
    by (simp add: twoPatients_def examplePatient_def)
qed

text \<open>
  Claim C8 as stated fails on the fallback path: the patient P2, with 0 months on the
  current therapy, is given split TRAIN.
\<close>

theorem fallback_split_counterexample:
  "rejectingEngine (requestOf insertionSort halfRandom twoPatients exampleOntology exampleConfig)
     = Inl CallRejected \<and>
   monthsOnCurrentTherapy (twoPatients ! 1) = 0 \<and>
   id_field (twoPatients ! 1) = ''P2'' \<and>
   id_field (rejectedRun ! 1) = ''P2'' \<and>
   split (rejectedRun ! 1) = Some TRAIN"
  by (simp add: rejectedRun_eq fallbackRecord_def example_defs)

text \<open>
  Claim C10. On a run whose call to the reasoning engine succeeds, the result has as many
  records as there are eligible patients, its records are the shuffled eligible patients
  in their order, every record is of an eligible patient, and no record is of an input
  patient that is not eligible. On the fallback path the result has one record for each
  input patient, eligible or not.
\<close>

theorem success_output_eligible_only:
  assumes "permuting srt"
    and "res = classifyPatientRisk srt fl rnd generateContent jsonParse patients ontology config"
    and "request = requestOf srt rnd patients ontology config"
    and "shuffled = shuffledPatients srt rnd patients"
  shows "(\<forall>predictions. fetchPredictions generateContent jsonParse request = Inr predictions \<longrightarrow>
            length res = length (filter eligible patients) \<and>
            mset shuffled = mset (filter eligible patients) \<and>
            list_all2 sameSubject res shuffled \<and>
            (\<forall>r \<in> set res. eligible r) \<and>
            (\<forall>p \<in> set patients. \<not> eligible p \<longrightarrow> \<not> (\<exists>r \<in> set res. sameSubject r p))) \<and>
         (\<forall>e. fetchPredictions generateContent jsonParse request = Inl e \<longrightarrow>
            length res = length patients \<and> list_all2 sameSubject res patients)"
proof (intro conjI allI impI)
  fix predictions
  assume "fetchPredictions generateContent jsonParse request = Inr predictions"
  then have ok: "fetchPredictions generateContent jsonParse
                   (requestOf srt rnd patients ontology config) = Inr predictions"
    using assms(3) by simp
  show perm: "mset shuffled = mset (filter eligible patients)"
    using mset_shuffledPatients [OF assms(1)] assms(4) by simp
  show same: "list_all2 sameSubject res shuffled"
    using classify_success_sameSubject [where fl = fl, OF ok] assms(2,4) by simp
  have "length res = size (mset shuffled)"
    using list_all2_lengthD [OF same] by simp
  then show "length res = length (filter eligible patients)"
    by (simp only: perm size_mset)
  show elig: "\<forall>r \<in> set res. eligible r"
  proof
    fix r assume "r \<in> set res"
    then obtain i where i: "i < length res" "r = res ! i" by (auto simp add: in_set_conv_nth)
    then have i': "i < length shuffled" using list_all2_lengthD [OF same] by simp
    then have "shuffled ! i \<in> set_mset (mset shuffled)" by simp
    then have "eligible (shuffled ! i)" unfolding perm by simp
    moreover have "sameSubject r (shuffled ! i)"
      using same i i' by (simp add: list_all2_conv_all_nth)
    ultimately show "eligible r"
      by (auto simp add: eligible_def sameSubject_def dest: arg_cong [where f = monthsOnCurrentTherapy])
  qed
  show "\<forall>p \<in> set patients. \<not> eligible p \<longrightarrow> \<not> (\<exists>r \<in> set res. sameSubject r p)"
  proof (intro ballI impI notI)
    fix p assume "p \<in> set patients" "\<not> eligible p" "\<exists>r \<in> set res. sameSubject r p"
    then obtain r where "r \<in> set res" "sameSubject r p" by blast
    then have "eligible r" "monthsOnCurrentTherapy r = monthsOnCurrentTherapy p"
      using elig by (auto simp add: sameSubject_def dest: arg_cong [where f = monthsOnCurrentTherapy])
    then show False using \<open>\<not> eligible p\<close> by (simp add: eligible_def)
  qed
next
  fix e
  assume "fetchPredictions generateContent jsonParse request = Inl e"
  then have res: "res = map fallbackRecord patients"
    using assms(2,3) by (simp add: classify_failure)
  show "length res = length patients" unfolding res by simp
  show "list_all2 sameSubject res patients"
    unfolding res by (simp add: list_all2_map1 list_all2_same fallbackRecord_sameSubject)
qed

text \<open>The theorem at the example inputs.\<close>

theorem success_output_eligible_only_witness:
  "permuting insertionSort \<and>
   fetchPredictions textEngine exampleParse
     (requestOf insertionSort halfRandom examplePatients exampleOntology exampleConfig)
     = Inr [\<lparr>p_id = ''P1'', p_riskScore = 0.8\<rparr>] \<and>
   length examplePatients = 3 \<and>
   length (filter eligible examplePatients) = 2 \<and>
   length successRun = 2 \<and>
   examplePatient ''P2'' 0 \<in> set examplePatients \<and>
   \<not> eligible (examplePatient ''P2'' 0) \<and>
   \<not> (\<exists>r \<in> set successRun. sameSubject r (examplePatient ''P2'' 0)) \<and>
   fetchPredictions rejectingEngine failingParse
     (requestOf insertionSort halfRandom twoPatients exampleOntology exampleConfig)
     = Inl CallRejected \<and>
   length rejectedRun = length twoPatients"
proof -
  note t1 = success_output_eligible_only [OF permuting_insertionSort successRun_def refl refl]
  note t2 = success_output_eligible_only [OF permuting_insertionSort rejectedRun_def refl refl]
  have p2: "examplePatient ''P2'' 0 \<in> set examplePatients" "\<not> eligible (examplePatient ''P2'' 0)"
    by (simp_all add: examplePatients_def eligible_def examplePatient_def)
  have n: "length examplePatients = 3" "length (filter eligible examplePatients) = 2"
    by (simp_all add: examplePatients_def eligible_def examplePatient_def)
  from t1 example_fetch have s: "length successRun = length (filter eligible examplePatients)"
    "\<forall>p \<in> set examplePatients. \<not> eligible p \<longrightarrow> \<not> (\<exists>r \<in> set successRun. sameSubject r p)"
    by blast+
  from s(2) p2 have "\<not> (\<exists>r \<in> set successRun. sameSubject r (examplePatient ''P2'' 0))"
    by blast
  moreover from t2 rejected_fetch have "length rejectedRun = length twoPatients" by blast
  ultimately show ?thesis
    using permuting_insertionSort example_fetch rejected_fetch p2 n s(1) by simp
qed

section \<open>Properties of validationMetrics\<close>

lemma foldl_countPatient:
  "foldl countPatient (a, b, c, d) xs =
     (a + length (filter (\<lambda>p. predictedOf p \<and> actualOf p) xs),
      b + length (filter (\<lambda>p. predictedOf p \<and> \<not> actualOf p) xs),
      c + length (filter (\<lambda>p. \<not> predictedOf p \<and> \<not> actualOf p) xs),
      d + length (filter (\<lambda>p. \<not> predictedOf p \<and> actualOf p) xs))"
  by (induction xs arbitrary: a b c d) (simp_all add: Let_def)

lemma four_way_count:
  "length (filter (\<lambda>p. P p \<and> Q p) xs) + length (filter (\<lambda>p. P p \<and> \<not> Q p) xs) +
   length (filter (\<lambda>p. \<not> P p \<and> \<not> Q p) xs) + length (filter (\<lambda>p. \<not> P p \<and> Q p) xs)
     = length xs"
  by (induction xs) auto

lemma predictedOf_iff: "predictedOf p \<longleftrightarrow> (\<exists>s. riskScore p = Some s \<and> s > 0.5)"
  by (cases "riskScore p") (simp_all add: predictedOf_def threshold_def)

lemma actualOf_iff: "actualOf p \<longleftrightarrow> actualOutcome p = Some True"
  by (cases "actualOutcome p") (simp_all add: actualOf_def)

lemma validationMetrics_counts:
  assumes "testSetOf patients \<noteq> []"
  shows "validationMetrics patients =
     (let testSet = testSetOf patients;
          tp' = length (filter (\<lambda>p. predictedOf p \<and> actualOf p) testSet);
          fp' = length (filter (\<lambda>p. predictedOf p \<and> \<not> actualOf p) testSet);
          tn' = length (filter (\<lambda>p. \<not> predictedOf p \<and> \<not> actualOf p) testSet);
          fn' = length (filter (\<lambda>p. \<not> predictedOf p \<and> actualOf p) testSet)
      in \<lparr>accuracy = real (tp' + tn') / real (length testSet),
          precision = (if tp' + fp' > 0 then real tp' / real (tp' + fp') else 0),
          recall = (if tp' + fn' > 0 then real tp' / real (tp' + fn') else 0),
          tp = tp', fp = fp', tn = tn', fn = fn'\<rparr>)"
  using assms by (simp add: validationMetrics_def foldl_countPatient Let_def)

lemma validationMetrics_empty:
  assumes "testSetOf patients = []"
  shows "validationMetrics patients =
           \<lparr>accuracy = 0, precision = 0, recall = 0, tp = 0, fp = 0, tn = 0, fn = 0\<rparr>"
  using assms by (simp add: validationMetrics_def)

text \<open>
  Claim C6. Over the patients with split TEST, with "predicted positive" meaning a
  riskScore above 0.5 and "actual" meaning actualOutcome true, validationMetrics counts
  tp, fp, tn and fn, which add up to the size of the test set; accuracy is (tp + tn) over
  the size of the test set, precision is tp / (tp + fp), or 0 when tp + fp = 0, recall
  is tp / (tp + fn), or 0 when tp + fn = 0; on an empty test set every metric is 0; and
  on the test set (0.8, true), (0.3, false), (0.9, false), (0.2, true) the four counts are
  1 and accuracy, precision and recall are 0.5.
\<close>

theorem validation_metrics:
  assumes "m = validationMetrics patients"
    and "testSet = filter (\<lambda>p. split p = Some TEST) patients"
    and "positive = (\<lambda>p. \<exists>s. riskScore p = Some s \<and> s > 0.5)"
    and "actual = (\<lambda>p. actualOutcome p = Some True)"
  shows "tp m = length (filter (\<lambda>p. positive p \<and> actual p) testSet) \<and>
         fp m = length (filter (\<lambda>p. positive p \<and> \<not> actual p) testSet) \<and>
         tn m = length (filter (\<lambda>p. \<not> positive p \<and> \<not> actual p) testSet) \<and>
         fn m = length (filter (\<lambda>p. \<not> positive p \<and> actual p) testSet) \<and>
         tp m + fp m + tn m + fn m = length testSet \<and>
         accuracy m = (if testSet = [] then 0 else real (tp m + tn m) / real (length testSet)) \<and>
         precision m = (if tp m + fp m = 0 then 0 else real (tp m) / real (tp m + fp m)) \<and>
         recall m = (if tp m + fn m = 0 then 0 else real (tp m) / real (tp m + fn m)) \<and>
         (testSet = [] \<longrightarrow>
            m = \<lparr>accuracy = 0, precision = 0, recall = 0, tp = 0, fp = 0, tn = 0, fn = 0\<rparr>) \<and>
         validationMetrics exampleTestSet =
           \<lparr>accuracy = 0.5, precision = 0.5, recall = 0.5, tp = 1, fp = 1, tn = 1, fn = 1\<rparr>"
proof -
  have ts: "testSet = testSetOf patients" using assms(2) by (simp add: testSetOf_def)
  have pos: "positive = predictedOf" using assms(3) by (rule ssubst) (rule ext, simp add: predictedOf_iff)
  have act: "actual = actualOf" using assms(4) by (rule ssubst) (rule ext, simp add: actualOf_iff)
  have ex: "validationMetrics exampleTestSet =
           \<lparr>accuracy = 0.5, precision = 0.5, recall = 0.5, tp = 1, fp = 1, tn = 1, fn = 1\<rparr>"
    by (simp add: validationMetrics_def testSetOf_def exampleTestSet_def scoredPatient_def
        examplePatient_def predictedOf_def actualOf_def threshold_def Let_def)
  show ?thesis
  proof (cases "testSet = []")
    case True
    then have "m = \<lparr>accuracy = 0, precision = 0, recall = 0, tp = 0, fp = 0, tn = 0, fn = 0\<rparr>"
      using assms(1) ts by (simp add: validationMetrics_empty)
    then show ?thesis using True ex by simp
  next
    case False
    then have m: "m =
      \<lparr>accuracy = real (length (filter (\<lambda>p. positive p \<and> actual p) testSet) +
                         length (filter (\<lambda>p. \<not> positive p \<and> \<not> actual p) testSet))
                    / real (length testSet),
        precision = (if length (filter (\<lambda>p. positive p \<and> actual p) testSet) +
                        length (filter (\<lambda>p. positive p \<and> \<not> actual p) testSet) > 0
                     then real (length (filter (\<lambda>p. positive p \<and> actual p) testSet)) /
                          real (length (filter (\<lambda>p. positive p \<and> actual p) testSet) +
                                length (filter (\<lambda>p. positive p \<and> \<not> actual p) testSet))
                     else 0),
        recall = (if length (filter (\<lambda>p. positive p \<and> actual p) testSet) +
                     length (filter (\<lambda>p. \<not> positive p \<and> actual p) testSet) > 0
                  then real (length (filter (\<lambda>p. positive p \<and> actual p) testSet)) /
                       real (length (filter (\<lambda>p. positive p \<and> actual p) testSet) +
                             length (filter (\<lambda>p. \<not> positive p \<and> actual p) testSet))
                  else 0),
        tp = length (filter (\<lambda>p. positive p \<and> actual p) testSet),
        fp = length (filter (\<lambda>p. positive p \<and> \<not> actual p) testSet),
        tn = length (filter (\<lambda>p. \<not> positive p \<and> \<not> actual p) testSet),
        fn = length (filter (\<lambda>p. \<not> positive p \<and> actual p) testSet)\<rparr>"
      using assms(1) ts validationMetrics_counts [of patients] by (simp add: Let_def pos act)
    have sum: "tp m + fp m + tn m + fn m = length testSet"
      unfolding m using four_way_count [of positive actual testSet] by simp
    show ?thesis using False ex sum by (simp add: m)
  qed
qed

text \<open>The theorem at the example inputs.\<close>

theorem validation_metrics_witness:
  "filter (\<lambda>p. split p = Some TEST) [scoredPatient ''R1'' TRAIN 0.9 True] = [] \<and>
   validationMetrics [scoredPatient ''R1'' TRAIN 0.9 True] =
     \<lparr>accuracy = 0, precision = 0, recall = 0, tp = 0, fp = 0, tn = 0, fn = 0\<rparr> \<and>
   filter (\<lambda>p. split p = Some TEST) exampleScored = exampleTestSet \<and>
   tp (validationMetrics exampleScored) = 1 \<and> fp (validationMetrics exampleScored) = 1 \<and>
   tn (validationMetrics exampleScored) = 1 \<and> fn (validationMetrics exampleScored) = 1 \<and>
   accuracy (validationMetrics exampleScored) = 0.5 \<and>
   precision (validationMetrics exampleScored) = 0.5 \<and>
   recall (validationMetrics exampleScored) = 0.5"
proof -
  have e: "filter (\<lambda>p. split p = Some TEST) [scoredPatient ''R1'' TRAIN 0.9 True] = []"
    by (simp add: scoredPatient_def)
  have f: "filter (\<lambda>p. split p = Some TEST) exampleScored = exampleTestSet"
    by (simp add: exampleScored_def exampleTestSet_def scoredPatient_def)
  note t0 = validation_metrics [OF refl e [symmetric] refl refl]
  note t1 = validation_metrics [OF refl f [symmetric] refl refl]
  from t0 have z: "validationMetrics [scoredPatient ''R1'' TRAIN 0.9 True] =
     \<lparr>accuracy = 0, precision = 0, recall = 0, tp = 0, fp = 0, tn = 0, fn = 0\<rparr>"
    by blast
  have c: "length (filter (\<lambda>p. (\<exists>s. riskScore p = Some s \<and> s > 0.5) \<and> actualOutcome p = Some True)
              exampleTestSet) = 1"
     "length (filter (\<lambda>p. (\<exists>s. riskScore p = Some s \<and> s > 0.5) \<and> actualOutcome p \<noteq> Some True)
              exampleTestSet) = 1"
     "length (filter (\<lambda>p. \<not> (\<exists>s. riskScore p = Some s \<and> s > 0.5) \<and> actualOutcome p \<noteq> Some True)
              exampleTestSet) = 1"
     "length (filter (\<lambda>p. \<not> (\<exists>s. riskScore p = Some s \<and> s > 0.5) \<and> actualOutcome p = Some True)
              exampleTestSet) = 1"
     "length exampleTestSet = 4" "exampleTestSet \<noteq> []"
    unfolding predictedOf_iff [symmetric]
    by (simp_all add: predictedOf_def threshold_def exampleTestSet_def scoredPatient_def
        examplePatient_def)
  from t1 c have n: "tp (validationMetrics exampleScored) = 1" "fp (validationMetrics exampleScored) = 1"
    "tn (validationMetrics exampleScored) = 1" "fn (validationMetrics exampleScored) = 1"
    by simp_all
  from t1 c(5,6) n have "accuracy (validationMetrics exampleScored) = 0.5"
    "precision (validationMetrics exampleScored) = 0.5"
    "recall (validationMetrics exampleScored) = 0.5"
    by simp_all
  with e z f n show ?thesis by simp
qed

section \<open>Properties of the column resolution\<close>

lemma findIndex_takeWhile:
  "findIndex P xs = (if \<exists>x \<in> set xs. P x then int (length (takeWhile (\<lambda>x. \<not> P x) xs)) else - 1)"
  by (induction xs) (auto simp add: Let_def)

lemma findIndex_minus_one: "findIndex P xs = - 1 \<longleftrightarrow> \<not> (\<exists>x \<in> set xs. P x)"
  by (simp add: findIndex_takeWhile)

lemma keywordLoop_tierMatch:
  "keywordLoop m hs kws = map_option int (tierMatch m hs kws)"
proof (induction kws)
  case Nil
  then show ?case by (simp add: tierMatch_def)
next
  case (Cons k ks)
  show ?case
  proof (cases "\<exists>h \<in> set hs. m h k")
    case True
    then show ?thesis
      by (simp add: tierMatch_def findIndex_takeWhile Let_def)
  next
    case False
    then have "findIndex (\<lambda>h. m h k) hs = - 1" by (simp add: findIndex_minus_one)
    then show ?thesis using False Cons.IH
      by (simp add: tierMatch_def Let_def)
  qed
qed

lemma findColumnIndex_resolveSpec:
  "findColumnIndex headers keywords =
     (case resolveSpec (map normalizeHeader headers) keywords of Some i \<Rightarrow> int i | None \<Rightarrow> - 1)"
proof -
  have s: "startsWith = (\<lambda>h keyword. prefix keyword h)"
    and i: "includes_str = (\<lambda>h keyword. sublist keyword h)"
    by (rule ext, rule ext, simp add: startsWith_def)
       (rule ext, rule ext, simp add: includes_str_def)
  show ?thesis
    by (simp add: findColumnIndex_def resolveSpec_def keywordLoop_tierMatch Let_def s i
        split: option.splits)
qed

lemma filter_dropWhile_disjoint:
  "(\<And>x. Q x \<Longrightarrow> \<not> P x) \<Longrightarrow> filter P (dropWhile Q xs) = filter P xs"
  by (induction xs) auto

lemma isWhiteSpace_not_alnum: "isWhiteSpace c \<Longrightarrow> \<not> isLowerAlnum c"
  by (auto simp add: isWhiteSpace_def isLowerAlnum_def)

lemma filter_trim: "filter isLowerAlnum (trim s) = filter isLowerAlnum s"
proof -
  have "filter isLowerAlnum (trim s)
          = rev (filter isLowerAlnum (dropWhile isWhiteSpace (rev (dropWhile isWhiteSpace s))))"
    by (simp add: trim_def rev_filter)
  also have "\<dots> = rev (filter isLowerAlnum (rev (dropWhile isWhiteSpace s)))"
    by (simp add: filter_dropWhile_disjoint isWhiteSpace_not_alnum)
  also have "\<dots> = filter isLowerAlnum (dropWhile isWhiteSpace s)"
    by (simp add: rev_filter)
  also have "\<dots> = filter isLowerAlnum s"
    by (simp add: filter_dropWhile_disjoint isWhiteSpace_not_alnum)
  finally show ?thesis .
qed

lemma normalize_examples:
  "map normalizeHeader [''Patient_ID'', ''ICD10'', ''NDC'', ''DOS'']
     = [''patientid'', ''icd10'', ''ndc'', ''dos'']"
  by (simp add: normalizeHeader_def filter_trim toLowerCase_def toLowerChar_def isLowerAlnum_def)

lemma example_resolution:
  "resolveColumns [''Patient_ID'', ''ICD10'', ''NDC'', ''DOS''] defaultColumnKeywords =
     Inr \<lparr>idIndex = 0, dxIndex = 1, rxIndex = 2, dateIndex = 3\<rparr>"
  unfolding resolveColumns_def drugColumnIndex_def findColumnIndex_def normalize_examples
  by (simp add: defaultColumnKeywords_def startsWith_def includes_str_def Let_def)

lemma length_takeWhile_lt:
  "\<exists>x \<in> set xs. \<not> P x \<Longrightarrow> length (takeWhile P xs) < length xs"
  by (induction xs) auto

lemma tierMatch_exact_Some:
  assumes "\<exists>k \<in> set kws. k \<in> set hs"
  shows "\<exists>i. tierMatch (\<lambda>h keyword. h = keyword) hs kws = Some i \<and> i < length hs \<and> hs ! i \<in> set kws"
proof -
  from assms have "find (\<lambda>keyword. \<exists>h \<in> set hs. h = keyword) kws \<noteq> None"
    by (auto simp add: find_None_iff)
  then obtain k where f: "find (\<lambda>keyword. \<exists>h \<in> set hs. h = keyword) kws = Some k" by blast
  then have k: "k \<in> set kws" "k \<in> set hs" by (auto simp add: find_Some_iff)
  let ?i = "length (takeWhile (\<lambda>h. h \<noteq> k) hs)"
  from k(2) have lt: "?i < length hs"
    by (intro length_takeWhile_lt) auto
  then have "\<not> (hs ! ?i \<noteq> k)" by (rule nth_length_takeWhile)
  then have "hs ! ?i = k" by simp
  moreover have "tierMatch (\<lambda>h keyword. h = keyword) hs kws = Some ?i"
    using f by (simp add: tierMatch_def)
  ultimately have "tierMatch (\<lambda>h keyword. h = keyword) hs kws = Some ?i \<and> ?i < length hs \<and>
      hs ! ?i \<in> set kws"
    using lt k(1) by simp
  then show ?thesis by (rule exI)
qed

text \<open>
  Claim C7. A header is normalized to its lower-case letters and its digits.
  findColumnIndex resolves a field as the three tiers of the specification do: equality,
  then prefix, then substring, each tier over all the keywords before the next one, the
  first keyword that matches winning, at the first header that it matches; so a keyword
  equal to a header wins over every prefix match. The drug column is resolved with the
  prescription keywords and, when they resolve nothing, with the procedure keywords. With
  the default keywords the headers Patient_ID, ICD10, NDC, DOS resolve to 0, 1, 2, 3.
\<close>

theorem column_resolution:
  assumes "hs = map normalizeHeader headers"
  shows "normalizeHeader h = filter isLowerAlnum (map toLowerChar h) \<and>
         findColumnIndex headers kws =
           (case resolveSpec hs kws of Some i \<Rightarrow> int i | None \<Rightarrow> - 1) \<and>
         ((\<exists>k \<in> set kws. k \<in> set hs) \<longrightarrow>
            (\<exists>i. findColumnIndex headers kws = int i \<and> i < length hs \<and> hs ! i \<in> set kws)) \<and>
         drugColumnIndex headers columnKeywords =
           (case resolveSpec hs (kw_prescription columnKeywords) of
              Some i \<Rightarrow> int i
            | None \<Rightarrow>
                (case resolveSpec hs (kw_procedure columnKeywords) of
                   Some i \<Rightarrow> int i
                 | None \<Rightarrow> - 1)) \<and>
         resolveColumns [''Patient_ID'', ''ICD10'', ''NDC'', ''DOS''] defaultColumnKeywords =
           Inr \<lparr>idIndex = 0, dxIndex = 1, rxIndex = 2, dateIndex = 3\<rparr>"
proof -
  have n: "normalizeHeader h = filter isLowerAlnum (map toLowerChar h)"
    by (simp add: normalizeHeader_def filter_trim toLowerCase_def)
  have f: "findColumnIndex headers kws =
           (case resolveSpec hs kws of Some i \<Rightarrow> int i | None \<Rightarrow> - 1)" for kws
    using assms by (simp add: findColumnIndex_resolveSpec)
  have e: "\<exists>i. findColumnIndex headers kws = int i \<and> i < length hs \<and> hs ! i \<in> set kws"
    if "\<exists>k \<in> set kws. k \<in> set hs"
  proof -
    from tierMatch_exact_Some [OF that] obtain i where
      "tierMatch (\<lambda>h keyword. h = keyword) hs kws = Some i" "i < length hs" "hs ! i \<in> set kws"
      by blast
    then show ?thesis by (auto simp add: f resolveSpec_def)
  qed
  have d: "drugColumnIndex headers columnKeywords =
           (case resolveSpec hs (kw_prescription columnKeywords) of
              Some i \<Rightarrow> int i
            | None \<Rightarrow>
                (case resolveSpec hs (kw_procedure columnKeywords) of
                   Some i \<Rightarrow> int i
                 | None \<Rightarrow> - 1))"
    by (simp add: drugColumnIndex_def f Let_def split: option.splits)
  show ?thesis using n f e d example_resolution by blast
qed

text \<open>The theorem at the example inputs.\<close>

theorem column_resolution_witness:
  "[''patientname'', ''id''] = map normalizeHeader [''Patient Name'', '' ID ''] \<and>
   ''id'' \<in> set [''patient'', ''id''] \<and> ''id'' \<in> set [''patientname'', ''id''] \<and>
   findColumnIndex [''Patient Name'', '' ID ''] [''patient'', ''id''] = 1 \<and>
   findColumnIndex [''Patient Name'', '' ID ''] [''patient''] = 0 \<and>
   drugColumnIndex [''Patient_ID'', ''CPT_Code''] defaultColumnKeywords = 1"
proof -
  have hs: "[''patientname'', ''id''] = map normalizeHeader [''Patient Name'', '' ID '']"
    by (simp add: normalizeHeader_def filter_trim toLowerCase_def toLowerChar_def isLowerAlnum_def)
  have hs2: "[''patientid'', ''cptcode''] = map normalizeHeader [''Patient_ID'', ''CPT_Code'']"
    by (simp add: normalizeHeader_def filter_trim toLowerCase_def toLowerChar_def isLowerAlnum_def)
  note t = column_resolution [OF hs, of _ "[''patient'', ''id'']"]
  note t1 = column_resolution [OF hs, of _ "[''patient'']"]
  note t2 = column_resolution [OF hs2, of _ _ defaultColumnKeywords]
  have "findColumnIndex [''Patient Name'', '' ID ''] [''patient'', ''id''] = 1"
    using t by (simp add: resolveSpec_def tierMatch_def)
  moreover have "findColumnIndex [''Patient Name'', '' ID ''] [''patient''] = 0"
    using t1 by (simp add: resolveSpec_def tierMatch_def)
  moreover have "drugColumnIndex [''Patient_ID'', ''CPT_Code''] defaultColumnKeywords = 1"
    using t2 by (simp add: resolveSpec_def tierMatch_def defaultColumnKeywords_def sublist_Cons_right)
  ultimately show ?thesis using hs by simp
qed

section \<open>Properties of classifyPatientRisk over the store\<close>

lemma allocArray_fields:
  "nextRef (fst (allocArray s xs)) = Suc (nextRef s)"
  "snd (allocArray s xs) = nextRef s"
  "arrays (fst (allocArray s xs)) = (arrays s)(nextRef s := xs)"
  "objects (fst (allocArray s xs)) = objects s"
  by (simp_all add: allocArray_def)

lemma allocObject_fields:
  "nextRef (fst (allocObject s p)) = Suc (nextRef s)"
  "snd (allocObject s p) = nextRef s"
  "arrays (fst (allocObject s p)) = arrays s"
  "objects (fst (allocObject s p)) = (objects s)(nextRef s := p)"
  by (simp_all add: allocObject_def)

lemma mapObjects_arrays:
  "arrays (fst (mapObjects_store f i n s rs)) = arrays s"
  by (induction rs arbitrary: s i n) (simp_all add: case_prod_beta allocObject_fields)

lemma mapObjects_nextRef:
  "nextRef (fst (mapObjects_store f i n s rs)) = nextRef s + length rs"
  by (induction rs arbitrary: s i n) (simp_all add: case_prod_beta allocObject_fields)

lemma mapObjects_frame:
  "r < nextRef s \<Longrightarrow> objects (fst (mapObjects_store f i n s rs)) r = objects s r"
  by (induction rs arbitrary: s i n) (simp_all add: case_prod_beta allocObject_fields)

lemma mapObjects_Cons:
  "mapObjects_store f i n s (r # rs) =
     (fst (mapObjects_store f (Suc i) (snd (f (objects s r) i n))
             (fst (allocObject s (fst (f (objects s r) i n)))) rs),
      nextRef s #
        fst (snd (mapObjects_store f (Suc i) (snd (f (objects s r) i n))
                    (fst (allocObject s (fst (f (objects s r) i n)))) rs)),
      snd (snd (mapObjects_store f (Suc i) (snd (f (objects s r) i n))
                  (fst (allocObject s (fst (f (objects s r) i n)))) rs)))"
  by (simp add: case_prod_beta allocObject_fields)

lemma mapObjects_refs:
  "fst (snd (mapObjects_store f i n s rs)) = [nextRef s ..< nextRef s + length rs]"
proof (induction rs arbitrary: s i n)
  case Nil
  then show ?case by simp
next
  case (Cons r rs)
  have "[nextRef s ..< nextRef s + length (r # rs)]
          = nextRef s # [Suc (nextRef s) ..< Suc (nextRef s) + length rs]"
    by (subst upt_rec) (simp del: upt_Suc)
  then show ?case
    by (simp only: mapObjects_Cons fst_conv snd_conv Cons.IH allocObject_fields)
qed

lemma arrayMap_Cons:
  "arrayMap f i n (x # xs) =
     (fst (f x i n) # fst (arrayMap f (Suc i) (snd (f x i n)) xs),
      snd (arrayMap f (Suc i) (snd (f x i n)) xs))"
  by (simp add: case_prod_beta)

lemma mapObjects_arrayMap:
  assumes "\<forall>r \<in> set rs. r < nextRef s"
  shows "map (objects (fst (mapObjects_store f i n s rs))) (fst (snd (mapObjects_store f i n s rs)))
           = fst (arrayMap f i n (map (objects s) rs)) \<and>
         snd (snd (mapObjects_store f i n s rs)) = snd (arrayMap f i n (map (objects s) rs))"
  using assms
proof (induction rs arbitrary: s i n)
  case Nil
  then show ?case by simp
next
  case (Cons r rs)
  define p where "p = fst (f (objects s r) i n)"
  define n1 where "n1 = snd (f (objects s r) i n)"
  define s1 where "s1 = fst (allocObject s p)"
  define run where "run = mapObjects_store f (Suc i) n1 s1 rs"
  have n1: "nextRef s1 = Suc (nextRef s)" and o1: "objects s1 = (objects s)(nextRef s := p)"
    by (simp_all add: s1_def allocObject_fields)
  have below: "\<forall>r \<in> set rs. r < nextRef s1"
    using Cons.prems by (auto simp add: n1)
  have same: "map (objects s1) rs = map (objects s) rs"
    using Cons.prems by (auto simp add: o1)
  have new: "objects (fst run) (nextRef s) = p"
    unfolding run_def by (simp add: mapObjects_frame n1 o1)
  have ih: "map (objects (fst run)) (fst (snd run)) = fst (arrayMap f (Suc i) n1 (map (objects s) rs))"
    "snd (snd run) = snd (arrayMap f (Suc i) n1 (map (objects s) rs))"
    using Cons.IH [OF below, of "Suc i" n1] unfolding run_def same by simp_all
  have step: "mapObjects_store f i n s (r # rs) = (fst run, nextRef s # fst (snd run), snd (snd run))"
    unfolding run_def s1_def n1_def p_def by (rule mapObjects_Cons)
  have pure: "arrayMap f i n (map (objects s) (r # rs)) =
      (p # fst (arrayMap f (Suc i) n1 (map (objects s) rs)),
       snd (arrayMap f (Suc i) n1 (map (objects s) rs)))"
    unfolding p_def n1_def by (simp only: list.map arrayMap_Cons)
  show ?case unfolding step pure by (simp add: new ih)
qed

lemma classify_store_unfold:
  "classifyPatientRisk_store srt fl rnd generateContent jsonParse s patients ontology config =
     (case fetchPredictions generateContent jsonParse
             (buildRequest ontology config (map (objects s) (shuffledRefs srt rnd s patients))) of
        Inr predictions \<Rightarrow>
          arrayMap_store
            (scorePatient rnd config predictions
               (splitIndexOf fl config (map (objects s) (shuffledRefs srt rnd s patients))))
            (beforeTry srt rnd s patients) (Suc (nextRef s))
            (snd (srt (randomComparator rnd)
                    (filter (\<lambda>r. eligible (objects s r)) (arrays s patients)) 0))
      | Inl e \<Rightarrow>
          arrayMap_store (\<lambda>p index n. (fallbackRecord p, n))
            (beforeTry srt rnd s patients) patients
            (snd (srt (randomComparator rnd)
                    (filter (\<lambda>r. eligible (objects s r)) (arrays s patients)) 0)))"
proof -
  define s1 where "s1 = fst (arrayFilter_store eligible s patients)"
  define s2 where "s2 = fst (arraySpread_store s1 (nextRef s))"
  define s3 where "s3 = fst (arraySort_store srt (randomComparator rnd) s2 (Suc (nextRef s)) 0)"
  define s4 where "s4 = fst (arraySlice_store s3 (Suc (nextRef s)) batchSize)"
  have s1: "s1 = s\<lparr>arrays := (arrays s)
          (nextRef s := filter (\<lambda>r. eligible (objects s r)) (arrays s patients)),
        nextRef := Suc (nextRef s)\<rparr>"
    by (simp add: s1_def arrayFilter_store_def allocArray_def)
  have s2: "s2 = s\<lparr>arrays := (arrays s)
          (nextRef s := filter (\<lambda>r. eligible (objects s r)) (arrays s patients),
           Suc (nextRef s) := filter (\<lambda>r. eligible (objects s r)) (arrays s patients)),
        nextRef := Suc (Suc (nextRef s))\<rparr>"
    by (simp add: s2_def s1 arraySpread_store_def allocArray_def)
  have s3: "s3 = s\<lparr>arrays := (arrays s)
          (nextRef s := filter (\<lambda>r. eligible (objects s r)) (arrays s patients),
           Suc (nextRef s) := shuffledRefs srt rnd s patients),
        nextRef := Suc (Suc (nextRef s))\<rparr>"
    by (simp add: s3_def s2 arraySort_store_def shuffledRefs_def case_prod_beta)
  have s4: "s4 = beforeTry srt rnd s patients"
    by (simp add: s4_def s3 arraySlice_store_def allocArray_def beforeTry_def)
  have r1: "arrayFilter_store eligible s patients = (s1, nextRef s)"
    by (simp add: s1_def arrayFilter_store_def allocArray_def)
  have r2: "arraySpread_store s1 (nextRef s) = (s2, Suc (nextRef s))"
    by (simp add: s2_def s1 arraySpread_store_def allocArray_def)
  have r3: "arraySort_store srt (randomComparator rnd) s2 (Suc (nextRef s)) 0 =
      (s3, Suc (nextRef s),
       snd (srt (randomComparator rnd)
              (filter (\<lambda>r. eligible (objects s r)) (arrays s patients)) 0))"
    by (simp add: s3_def s2 arraySort_store_def case_prod_beta)
  have r4: "arraySlice_store s3 (Suc (nextRef s)) batchSize = (s4, Suc (Suc (nextRef s)))"
    by (simp add: s4_def s3 arraySlice_store_def allocArray_def)
  have o4: "objects s4 = objects s"
    and a4: "arrays s4 (Suc (nextRef s)) = shuffledRefs srt rnd s patients"
    by (simp_all add: s4 beforeTry_def)
  show ?thesis
    unfolding classifyPatientRisk_store_def r1 prod.case r2 r3 r4 Let_def o4 a4
    unfolding s4 ..
qed

lemma arrayMap_store_fields:
  "snd (arrayMap_store f s a n) = nextRef s + length (arrays s a)"
  "nextRef (fst (arrayMap_store f s a n)) = Suc (nextRef s + length (arrays s a))"
  "arrays (fst (arrayMap_store f s a n)) =
     (arrays s)(nextRef s + length (arrays s a) := [nextRef s ..< nextRef s + length (arrays s a)])"
  by (simp_all add: arrayMap_store_def case_prod_beta allocArray_fields mapObjects_nextRef
      mapObjects_arrays mapObjects_refs)

lemma arrayMap_store_frame:
  "r < nextRef s \<Longrightarrow> objects (fst (arrayMap_store f s a n)) r = objects s r"
  by (simp add: arrayMap_store_def case_prod_beta allocArray_fields mapObjects_frame)

lemma arrayMap_store_objects:
  assumes "\<forall>r \<in> set (arrays s a). r < nextRef s"
  shows "map (objects (fst (arrayMap_store f s a n)))
           [nextRef s ..< nextRef s + length (arrays s a)]
         = fst (arrayMap f 0 n (map (objects s) (arrays s a)))"
  using mapObjects_arrayMap [OF assms, of f 0 n]
  by (simp add: arrayMap_store_def case_prod_beta allocArray_fields mapObjects_refs)

lemma beforeTry_fields:
  "objects (beforeTry srt rnd s patients) = objects s"
  "nextRef (beforeTry srt rnd s patients) = Suc (Suc (Suc (nextRef s)))"
  "a < nextRef s \<Longrightarrow> arrays (beforeTry srt rnd s patients) a = arrays s a"
  "arrays (beforeTry srt rnd s patients) (Suc (nextRef s)) = shuffledRefs srt rnd s patients"
  by (simp_all add: beforeTry_def)

lemma classify_store_frame:
  assumes "run = classifyPatientRisk_store srt fl rnd generateContent jsonParse s patients ontology config"
  shows "(\<forall>a < nextRef s. arrays (fst run) a = arrays s a \<and> objects (fst run) a = objects s a) \<and>
         nextRef s \<le> snd run \<and> snd run < nextRef (fst run) \<and>
         (\<forall>r' \<in> set (arrays (fst run) (snd run)). nextRef s \<le> r' \<and> r' < nextRef (fst run))"
proof (cases "fetchPredictions generateContent jsonParse
             (buildRequest ontology config (map (objects s) (shuffledRefs srt rnd s patients)))")
  case (Inl e)
  then show ?thesis
    unfolding assms classify_store_unfold
    by (auto simp add: arrayMap_store_fields arrayMap_store_frame beforeTry_fields)
next
  case (Inr predictions)
  then show ?thesis
    unfolding assms classify_store_unfold
    by (auto simp add: arrayMap_store_fields arrayMap_store_frame beforeTry_fields)
qed

lemma shuffledRefs_mset:
  "permuting srt \<Longrightarrow>
   mset (shuffledRefs srt rnd s patients) =
     mset (filter (\<lambda>r. eligible (objects s r)) (arrays s patients))"
  by (simp add: shuffledRefs_def permuting_def)

lemma shuffledRefs_below:
  assumes "permuting srt" and "wellFormed s patients"
  shows "\<forall>r \<in> set (shuffledRefs srt rnd s patients). r < nextRef s"
proof
  fix r assume "r \<in> set (shuffledRefs srt rnd s patients)"
  then have "r \<in> set_mset (mset (shuffledRefs srt rnd s patients))" by simp
  then have "r \<in> set (arrays s patients)"
    unfolding shuffledRefs_mset [OF assms(1)] by simp
  then show "r < nextRef s" using assms(2) by (simp add: wellFormed_def)
qed

lemma classify_store_success:
  assumes "permuting srt" and "wellFormed s patients"
    and "fetchPredictions generateContent jsonParse
           (buildRequest ontology config (map (objects s) (shuffledRefs srt rnd s patients)))
           = Inr predictions"
    and "run = classifyPatientRisk_store srt fl rnd generateContent jsonParse s patients ontology config"
  shows "map (objects (fst run)) (arrays (fst run) (snd run)) =
           fst (arrayMap
                  (scorePatient rnd config predictions
                     (splitIndexOf fl config (map (objects s) (shuffledRefs srt rnd s patients))))
                  0
                  (snd (srt (randomComparator rnd)
                          (filter (\<lambda>r. eligible (objects s r)) (arrays s patients)) 0))
                  (map (objects s) (shuffledRefs srt rnd s patients)))"
proof -
  let ?s4 = "beforeTry srt rnd s patients"
  have below: "\<forall>r \<in> set (arrays ?s4 (Suc (nextRef s))). r < nextRef ?s4"
    using shuffledRefs_below [OF assms(1,2), of rnd] by (auto simp add: beforeTry_fields)
  show ?thesis
    unfolding assms(4) classify_store_unfold assms(3) sum.case
    using arrayMap_store_objects [OF below]
    by (simp add: arrayMap_store_fields beforeTry_fields)
qed

lemma classify_store_failure:
  assumes "wellFormed s patients"
    and "fetchPredictions generateContent jsonParse
           (buildRequest ontology config (map (objects s) (shuffledRefs srt rnd s patients)))
           = Inl e"
    and "run = classifyPatientRisk_store srt fl rnd generateContent jsonParse s patients ontology config"
  shows "map (objects (fst run)) (arrays (fst run) (snd run)) =
           map fallbackRecord (map (objects s) (arrays s patients))"
proof -
  let ?s4 = "beforeTry srt rnd s patients"
  have p: "arrays ?s4 patients = arrays s patients"
    using assms(1) by (simp add: beforeTry_fields wellFormed_def)
  have below: "\<forall>r \<in> set (arrays ?s4 patients). r < nextRef ?s4"
    using assms(1) unfolding p by (auto simp add: beforeTry_fields wellFormed_def)
  have pure: "fst (arrayMap (\<lambda>p index n. (fallbackRecord p, n)) i n xs) = map fallbackRecord xs"
    for i n and xs :: "PatientProfile list"
    by (induction xs arbitrary: i n) (simp_all add: case_prod_beta)
  show ?thesis
    unfolding assms(3) classify_store_unfold assms(2) sum.case
    using arrayMap_store_objects [OF below]
    by (simp add: arrayMap_store_fields beforeTry_fields p pure)
qed

lemma insertBy_alike:
  "map f (fst (insertBy (randomComparator rnd) x xs n))
     = fst (insertBy (randomComparator rnd) (f x) (map f xs) n) \<and>
   snd (insertBy (randomComparator rnd) x xs n)
     = snd (insertBy (randomComparator rnd) (f x) (map f xs) n)"
  by (induction xs arbitrary: n) (simp_all add: case_prod_beta randomComparator_def)

lemma insertionSort_alike:
  "map f (fst (insertionSort (randomComparator rnd) xs n))
     = fst (insertionSort (randomComparator rnd) (map f xs) n) \<and>
   snd (insertionSort (randomComparator rnd) xs n)
     = snd (insertionSort (randomComparator rnd) (map f xs) n)"
proof (induction xs arbitrary: n)
  case Nil
  then show ?case by simp
next
  case (Cons x xs)
  show ?case
    using Cons.IH [of n]
      insertBy_alike [of f rnd x "fst (insertionSort (randomComparator rnd) xs n)"
        "snd (insertionSort (randomComparator rnd) xs n)"]
    by (simp add: case_prod_beta)
qed

lemma sortsAlike_insertionSort: "sortsAlike insertionSort insertionSort rnd f"
  unfolding sortsAlike_def using insertionSort_alike by blast

lemma classify_store_refines:
  assumes "permuting srt" and "wellFormed s patients"
    and "sortsAlike srt srtP rnd (objects s)"
    and "run = classifyPatientRisk_store srt fl rnd generateContent jsonParse s patients ontology config"
  shows "map (objects (fst run)) (arrays (fst run) (snd run)) =
           classifyPatientRisk srtP fl rnd generateContent jsonParse
             (map (objects s) (arrays s patients)) ontology config"
proof -
  let ?P = "map (objects s) (arrays s patients)"
  let ?refs = "filter (\<lambda>r. eligible (objects s r)) (arrays s patients)"
  have f: "filter eligible ?P = map (objects s) ?refs"
    by (simp add: filter_map comp_def)
  have sh: "shuffledPatients srtP rnd ?P = map (objects s) (shuffledRefs srt rnd s patients)"
    and n: "snd (shuffledOf srtP rnd ?P) = snd (srt (randomComparator rnd) ?refs 0)"
    using assms(3) unfolding sortsAlike_def shuffledPatients_def shuffledOf_def shuffledRefs_def
      Let_def f by simp_all
  show ?thesis
  proof (cases "fetchPredictions generateContent jsonParse
             (buildRequest ontology config (map (objects s) (shuffledRefs srt rnd s patients)))")
    case (Inl e)
    then have "fetchPredictions generateContent jsonParse (requestOf srtP rnd ?P ontology config)
                 = Inl e"
      by (simp add: requestOf_def sh)
    from classify_failure [where fl = fl, OF this] classify_store_failure [OF assms(2) Inl assms(4)]
    show ?thesis by simp
  next
    case (Inr predictions)
    then have "fetchPredictions generateContent jsonParse (requestOf srtP rnd ?P ontology config)
                 = Inr predictions"
      by (simp add: requestOf_def sh)
    from classify_success [where fl = fl, OF this] classify_store_success [OF assms(1,2) Inr assms(4)]
    show ?thesis by (simp add: sh n)
  qed
qed

lemma exampleStore_patients:
  "map (objects exampleStore) (arrays exampleStore 3) = examplePatients"
  by (simp add: exampleStore_def examplePatients_def)

text \<open>
  Claim C9. A run of classifyPatientRisk over a store in which the caller's array and its
  objects are in use leaves that array and every one of those objects as they were, and
  more generally every array and object that was in use before the run. The array that it
  returns is a new one, and so are the objects that the array refers to. When the engine's
  sort rearranges and the call to the reasoning engine succeeds, the objects returned are,
  in order, of the same subjects as the shuffled eligible input objects: they agree with
  them on every field but riskScore, riskCategory, split and actualOutcome. The records
  that the returned array refers to are the list that classifyPatientRisk computes from
  the records of the caller's array.
\<close>

theorem classify_leaves_input_unchanged:
  assumes "wellFormed s patients"
    and "run = classifyPatientRisk_store srt fl rnd generateContent jsonParse s patients ontology config"
    and "s' = fst run" and "res = snd run"
  shows "arrays s' patients = arrays s patients \<and>
         (\<forall>r \<in> set (arrays s patients). objects s' r = objects s r) \<and>
         (\<forall>a < nextRef s. arrays s' a = arrays s a \<and> objects s' a = objects s a) \<and>
         res \<noteq> patients \<and> nextRef s \<le> res \<and>
         (\<forall>r' \<in> set (arrays s' res). nextRef s \<le> r' \<and> r' \<notin> set (arrays s patients)) \<and>
         (permuting srt \<longrightarrow>
            (\<forall>predictions.
               fetchPredictions generateContent jsonParse
                 (buildRequest ontology config (map (objects s) (shuffledRefs srt rnd s patients)))
                 = Inr predictions \<longrightarrow>
               mset (shuffledRefs srt rnd s patients) =
                 mset (filter (\<lambda>r. eligible (objects s r)) (arrays s patients)) \<and>
               list_all2 (\<lambda>r' r. sameSubject (objects s' r') (objects s r))
                 (arrays s' res) (shuffledRefs srt rnd s patients)) \<and>
            (\<forall>srtP. sortsAlike srt srtP rnd (objects s) \<longrightarrow>
               map (objects s') (arrays s' res) =
                 classifyPatientRisk srtP fl rnd generateContent jsonParse
                   (map (objects s) (arrays s patients)) ontology config))"
proof -
  note frame = classify_store_frame [OF assms(2)]
  have wf: "patients < nextRef s" "\<forall>r \<in> set (arrays s patients). r < nextRef s"
    using assms(1) by (simp_all add: wellFormed_def)
  have a: "arrays s' patients = arrays s patients"
    using frame wf(1) assms(3) by simp
  have b: "\<forall>r \<in> set (arrays s patients). objects s' r = objects s r"
    using frame wf(2) assms(3) by simp
  have c: "\<forall>a < nextRef s. arrays s' a = arrays s a \<and> objects s' a = objects s a"
    using frame assms(3) by simp
  have d: "res \<noteq> patients" "nextRef s \<le> res"
    using frame wf(1) assms(4) by simp_all
  have e: "\<forall>r' \<in> set (arrays s' res). nextRef s \<le> r' \<and> r' \<notin> set (arrays s patients)"
  proof
    fix r' assume "r' \<in> set (arrays s' res)"
    then have "nextRef s \<le> r'" using frame assms(3,4) by simp
    then show "nextRef s \<le> r' \<and> r' \<notin> set (arrays s patients)"
      using wf(2) by auto
  qed
  have g: "mset (shuffledRefs srt rnd s patients) =
                 mset (filter (\<lambda>r. eligible (objects s r)) (arrays s patients)) \<and>
               list_all2 (\<lambda>r' r. sameSubject (objects s' r') (objects s r))
                 (arrays s' res) (shuffledRefs srt rnd s patients)"
    if perm: "permuting srt"
      and ok: "fetchPredictions generateContent jsonParse
                 (buildRequest ontology config (map (objects s) (shuffledRefs srt rnd s patients)))
                 = Inr predictions"
    for predictions
  proof -
    let ?sh = "shuffledRefs srt rnd s patients"
    let ?f = "scorePatient rnd config predictions (splitIndexOf fl config (map (objects s) ?sh))"
    let ?n = "snd (srt (randomComparator rnd)
                     (filter (\<lambda>r. eligible (objects s r)) (arrays s patients)) 0)"
    have eq: "map (objects s') (arrays s' res) = fst (arrayMap ?f 0 ?n (map (objects s) ?sh))"
      using classify_store_success [OF perm assms(1) ok assms(2)] assms(3,4) by simp
    then have len: "length (arrays s' res) = length ?sh"
      using length_arrayMap [of ?f 0 ?n "map (objects s) ?sh"]
      by (metis length_map)
    have "list_all2 (\<lambda>r' r. sameSubject (objects s' r') (objects s r)) (arrays s' res) ?sh"
    proof (rule list_all2_all_nthI [OF len])
      fix i assume i: "i < length (arrays s' res)"
      then have i': "i < length (map (objects s) ?sh)" using len by simp
      from nth_arrayMap [OF i', of ?f 0 ?n] obtain m where
        "fst (arrayMap ?f 0 ?n (map (objects s) ?sh)) ! i = fst (?f (objects s (?sh ! i)) i m)"
        using i' by auto
      moreover have "map (objects s') (arrays s' res) ! i = objects s' (arrays s' res ! i)"
        using i by simp
      ultimately have "objects s' (arrays s' res ! i) = fst (?f (objects s (?sh ! i)) i m)"
        using eq by simp
      then show "sameSubject (objects s' (arrays s' res ! i)) (objects s (?sh ! i))"
        by (simp add: scorePatient_sameSubject)
    qed
    then show ?thesis using shuffledRefs_mset [OF perm] by simp
  qed
  have h: "map (objects s') (arrays s' res) =
                 classifyPatientRisk srtP fl rnd generateContent jsonParse
                   (map (objects s) (arrays s patients)) ontology config"
    if "permuting srt" "sortsAlike srt srtP rnd (objects s)" for srtP
    using classify_store_refines [OF that(1) assms(1) that(2) assms(2)] assms(3,4) by simp
  show ?thesis using a b c d e g h by blast
qed

text \<open>The theorem at the example store.\<close>

theorem classify_leaves_input_unchanged_witness:
  "wellFormed exampleStore 3 \<and>
   permuting (insertionSort :: ref array_sort) \<and>
   sortsAlike insertionSort insertionSort halfRandom (objects exampleStore) \<and>
   arrays exampleStore 3 = [0, 1, 2] \<and>
   arrays (fst storeRun) 3 = [0, 1, 2] \<and>
   objects (fst storeRun) 0 = examplePatient ''P1'' 5 \<and>
   objects (fst storeRun) 1 = examplePatient ''P2'' 0 \<and>
   objects (fst storeRun) 2 = examplePatient ''P3'' 14 \<and>
   snd storeRun \<noteq> 3 \<and>
   map (objects (fst storeRun)) (arrays (fst storeRun) (snd storeRun)) = successRun"
proof -
  have wf: "wellFormed exampleStore 3"
    by (simp add: wellFormed_def exampleStore_def)
  note t = classify_leaves_input_unchanged [OF wf storeRun_def refl refl]
  have a: "arrays exampleStore 3 = [0, 1, 2]" by (simp add: exampleStore_def)
  from t have "arrays (fst storeRun) 3 = arrays exampleStore 3" by blast
  then have a': "arrays (fst storeRun) 3 = [0, 1, 2]" using a by simp
  from t have "\<forall>r \<in> set (arrays exampleStore 3). objects (fst storeRun) r = objects exampleStore r"
    by blast
  then have o: "objects (fst storeRun) 0 = examplePatient ''P1'' 5"
    "objects (fst storeRun) 1 = examplePatient ''P2'' 0"
    "objects (fst storeRun) 2 = examplePatient ''P3'' 14"
    unfolding a by (simp_all add: exampleStore_def)
  from t have r: "snd storeRun \<noteq> 3" by blast
  from t permuting_insertionSort sortsAlike_insertionSort
  have "map (objects (fst storeRun)) (arrays (fst storeRun) (snd storeRun)) =
          classifyPatientRisk insertionSort binary64 halfRandom textEngine exampleParse
            (map (objects exampleStore) (arrays exampleStore 3)) exampleOntology exampleConfig"
    by blast
  then have "map (objects (fst storeRun)) (arrays (fst storeRun) (snd storeRun)) = successRun"
    unfolding exampleStore_patients successRun_def .
  with wf a a' o r permuting_insertionSort sortsAlike_insertionSort show ?thesis by blast
qed

end
